theory Spec2Isabelle
  imports Main "HOL-Library.Sublist"
begin

section \<open>Strings as the route handler uses them\<close>

text \<open>
  JavaScript strings are modelled as \<^typ>\<open>string\<close>: one \<^typ>\<open>char\<close> per code unit, so
  the model covers strings whose code units are below 256. Case mapping is that of the
  ASCII letters.
\<close>

text \<open>\<^verbatim>\<open>s.split(c)\<close> for a one-character separator: never empty, keeps empty pieces.\<close>

fun split_chr :: "char \<Rightarrow> string \<Rightarrow> string list" where
  "split_chr c [] = [[]]"
| "split_chr c (x # xs) =
     (if x = c then [] # split_chr c xs
      else (case split_chr c xs of
              [] \<Rightarrow> [[x]]
            | w # ws \<Rightarrow> (x # w) # ws))"

definition lower_chr :: "char \<Rightarrow> char" where
  "lower_chr c =
     (case map_of (zip ''ABCDEFGHIJKLMNOPQRSTUVWXYZ'' ''abcdefghijklmnopqrstuvwxyz'') c of
        None \<Rightarrow> c
      | Some d \<Rightarrow> d)"

definition toLowerCase :: "string \<Rightarrow> string" where
  "toLowerCase s = map lower_chr s"

text \<open>
  The code units below 256 that \<^verbatim>\<open>String.prototype.trim\<close> removes: tab, line feed,
  vertical tab, form feed, carriage return, space and the no-break space.
\<close>

definition is_space :: "char \<Rightarrow> bool" where
  "is_space c =
     (c \<in> set [CHR '' '', CHR 0x09, CHR 0x0A, CHR 0x0B, CHR 0x0C, CHR 0x0D, CHR 0xA0])"

definition trim :: "string \<Rightarrow> string" where
  "trim s = rev (dropWhile is_space (rev (dropWhile is_space s)))"

definition endsWith :: "string \<Rightarrow> string \<Rightarrow> bool" where
  "endsWith s suf = (length suf \<le> length s \<and> drop (length s - length suf) s = suf)"

text \<open>\<^verbatim>\<open>s.replace(/suf$/, '')\<close> for a literal suffix: drops it once when present.\<close>

definition strip_suffix :: "string \<Rightarrow> string \<Rightarrow> string" where
  "strip_suffix suf s = (if endsWith s suf then take (length s - length suf) s else s)"

section \<open>Constants of the route (lines 11-62)\<close>

definition GITHUB_API :: string where
  "GITHUB_API = ''https://api.github.com''"

definition MAX_FILE_SIZE :: int where
  "MAX_FILE_SIZE = 100000"

definition MAX_TOTAL_SIZE :: int where
  "MAX_TOTAL_SIZE = 500000"

definition MAX_FILES :: nat where
  "MAX_FILES = 50"

definition CODE_EXTENSIONS :: "string list" where
  "CODE_EXTENSIONS =
     [''.js'', ''.jsx'', ''.ts'', ''.tsx'', ''.mjs'', ''.cjs'',
      ''.py'', ''.pyw'',
      ''.java'', ''.kt'', ''.kts'', ''.scala'',
      ''.go'',
      ''.rs'',
      ''.c'', ''.cpp'', ''.cc'', ''.cxx'', ''.h'', ''.hpp'',
      ''.cs'',
      ''.rb'',
      ''.php'',
      ''.swift'',
      ''.dart'',
      ''.vue'', ''.svelte'',
      ''.sol'',
      ''.r'', ''.R'',
      ''.lua'',
      ''.sh'', ''.bash'', ''.zsh'',
      ''.sql'',
      ''.graphql'', ''.gql'',
      ''.yml'', ''.yaml'',
      ''.json'',
      ''.xml'',
      ''.toml'',
      ''.cfg'', ''.ini'', ''.conf'',
      ''.md'', ''.mdx'',
      ''.html'', ''.css'', ''.scss'', ''.sass'', ''.less'',
      ''.dockerfile'',
      ''.tf'',
      ''.prisma'',
      ''.proto'']"

definition SKIP_DIRS :: "string list" where
  "SKIP_DIRS =
     [''node_modules'', ''.git'', ''dist'', ''build'', ''out'', ''.next'',
      ''__pycache__'', ''.cache'', ''vendor'', ''target'', ''bin'', ''obj'',
      ''.idea'', ''.vscode'', ''coverage'', ''.nyc_output'', ''.tox'',
      ''venv'', ''.venv'', ''env'', ''.env'', ''eggs'', ''.eggs'']"

definition SKIP_FILES :: "string list" where
  "SKIP_FILES =
     [''package-lock.json'', ''yarn.lock'', ''pnpm-lock.yaml'',
      ''composer.lock'', ''Gemfile.lock'', ''Cargo.lock'',
      ''go.sum'', ''poetry.lock'', ''Pipfile.lock'']"

section \<open>File classifier (lines 133-150)\<close>

text \<open>
  The extension of a file name as line 145 computes it: empty when the name has no dot,
  otherwise a dot followed by the lower-cased text after the last dot.
\<close>

definition file_ext :: "string \<Rightarrow> string" where
  "file_ext fileName =
     (if CHR ''.'' \<in> set fileName
      then ''.'' @ toLowerCase (last (split_chr CHR ''.'' fileName))
      else [])"

text \<open>
  The branches keep the order of the source: the test for an empty extension (line 146)
  comes before the test for the two special names (line 147).
\<close>

definition shouldIncludeFile :: "string \<Rightarrow> bool" where
  "shouldIncludeFile path =
     (let parts = split_chr CHR ''/'' path in
      if \<exists>part \<in> set (butlast parts). part \<in> set SKIP_DIRS then False
      else
        let fileName = last parts in
        if fileName \<in> set SKIP_FILES then False
        else
          let ext = file_ext fileName in
          if ext = [] then False
          else if fileName = ''Dockerfile'' \<or> fileName = ''Makefile'' then True
          else ext \<in> set CODE_EXTENSIONS)"

section \<open>Repository reference parser (lines 64-98)\<close>

record URL =
  hostname :: string
  pathname :: string

record ParsedRepo =
  owner :: string
  repo :: string
  branch :: "string option"

text \<open>The character class \<^verbatim>\<open>[a-zA-Z0-9_.-]\<close> of the shorthand pattern (line 74).\<close>

definition is_repo_chr :: "char \<Rightarrow> bool" where
  "is_repo_chr c =
     (c \<in> set ''abcdefghijklmnopqrstuvwxyzABCDEFGHIJKLMNOPQRSTUVWXYZ0123456789_.-'')"

text \<open>
  \<^verbatim>\<open>/^[a-zA-Z0-9_.-]+\/[a-zA-Z0-9_.-]+$/.test(s)\<close>: exactly one slash, with a non-empty
  run of class characters on each side.
\<close>

definition matches_short :: "string \<Rightarrow> bool" where
  "matches_short s =
     (case split_chr CHR ''/'' s of
        [a, b] \<Rightarrow> a \<noteq> [] \<and> b \<noteq> [] \<and> list_all is_repo_chr a \<and> list_all is_repo_chr b
      | _ \<Rightarrow> False)"

text \<open>Line 71: \<^verbatim>\<open>url.trim().replace(/\.git$/, '').replace(/\/$/, '')\<close>.\<close>

definition cleanUrl :: "string \<Rightarrow> string" where
  "cleanUrl url = strip_suffix ''/'' (strip_suffix ''.git'' (trim url))"

text \<open>
  The platform's \<^verbatim>\<open>URL\<close> constructor is not code of the route; it is the parameter
  \<open>new_URL\<close>, which returns \<open>None\<close> where the constructor throws (the \<^verbatim>\<open>catch\<close> of
  line 95 turns that into \<^verbatim>\<open>null\<close>). Reading an index past the end of \<^verbatim>\<open>parts\<close> gives
  \<^verbatim>\<open>undefined\<close> in the source, which fails both tests of line 90.
\<close>

definition parseGitHubUrl :: "(string \<Rightarrow> URL option) \<Rightarrow> string \<Rightarrow> ParsedRepo option" where
  "parseGitHubUrl new_URL url =
     (let cleaned = cleanUrl url in
      if matches_short cleaned then
        (case split_chr CHR ''/'' cleaned of
           ow # rp # _ \<Rightarrow> Some \<lparr>owner = ow, repo = rp, branch = None\<rparr>
         | _ \<Rightarrow> None)
      else
        (case new_URL cleaned of
           None \<Rightarrow> None
         | Some urlObj \<Rightarrow>
             if hostname urlObj \<noteq> ''github.com'' then None
             else
               let parts = filter (\<lambda>p. p \<noteq> []) (split_chr CHR ''/'' (pathname urlObj)) in
               if length parts < 2 then None
               else Some \<lparr>owner = parts ! 0, repo = parts ! 1,
                          branch = (if 3 < length parts \<and> parts ! 2 = ''tree'' \<and> parts ! 3 \<noteq> []
                                    then Some (parts ! 3) else None)\<rparr>))"

text \<open>
  A small instance of the constructor, for running the parser on concrete locators: it
  accepts \<^verbatim>\<open>http://\<close> and \<^verbatim>\<open>https://\<close> followed by a non-empty host and an optional path,
  and rejects everything else. On such inputs (lower-case host, no port, user, query or
  fragment, no dot segments) it returns what the platform returns.
\<close>

definition simple_URL :: "string \<Rightarrow> URL option" where
  "simple_URL s =
     (let rest = (if take 8 s = ''https://'' then Some (drop 8 s)
                  else if take 7 s = ''http://'' then Some (drop 7 s)
                  else None)
      in case rest of
           None \<Rightarrow> None
         | Some r \<Rightarrow>
             let host = takeWhile (\<lambda>c. c \<noteq> CHR ''/'') r;
                 p = dropWhile (\<lambda>c. c \<noteq> CHR ''/'') r
             in if host = [] then None
                else Some \<lparr>hostname = host, pathname = (if p = [] then ''/'' else p)\<rparr>)"

section \<open>Language label (lines 100-131)\<close>

definition langMap :: "(string \<times> string) list" where
  "langMap =
     [(''.js'', ''JavaScript''), (''.jsx'', ''JavaScript''), (''.mjs'', ''JavaScript''),
      (''.cjs'', ''JavaScript''),
      (''.ts'', ''TypeScript''), (''.tsx'', ''TypeScript''),
      (''.py'', ''Python''), (''.pyw'', ''Python''),
      (''.java'', ''Java''), (''.kt'', ''Kotlin''), (''.kts'', ''Kotlin''), (''.scala'', ''Scala''),
      (''.go'', ''Go''),
      (''.rs'', ''Rust''),
      (''.c'', ''C''), (''.h'', ''C''), (''.cpp'', ''C++''), (''.cc'', ''C++''), (''.cxx'', ''C++''),
      (''.hpp'', ''C++''),
      (''.cs'', ''C#''),
      (''.rb'', ''Ruby''),
      (''.php'', ''PHP''),
      (''.swift'', ''Swift''),
      (''.dart'', ''Dart''),
      (''.vue'', ''Vue''), (''.svelte'', ''Svelte''),
      (''.sol'', ''Solidity''),
      (''.r'', ''R''), (''.R'', ''R''),
      (''.lua'', ''Lua''),
      (''.sh'', ''Shell''), (''.bash'', ''Shell''), (''.zsh'', ''Shell''),
      (''.sql'', ''SQL''),
      (''.html'', ''HTML''), (''.css'', ''CSS''), (''.scss'', ''SCSS''), (''.sass'', ''Sass''),
      (''.less'', ''Less''),
      (''.json'', ''JSON''), (''.yml'', ''YAML''), (''.yaml'', ''YAML''), (''.toml'', ''TOML''),
      (''.md'', ''Markdown''), (''.mdx'', ''MDX''),
      (''.graphql'', ''GraphQL''), (''.gql'', ''GraphQL''),
      (''.proto'', ''Protocol Buffers''),
      (''.prisma'', ''Prisma''),
      (''.tf'', ''Terraform''),
      (''.xml'', ''XML'')]"

definition getLanguageFromPath :: "string \<Rightarrow> string" where
  "getLanguageFromPath path =
     (let ext = ''.'' @ toLowerCase (last (split_chr CHR ''.'' path)) in
      case map_of langMap ext of
        None \<Rightarrow> ''Unknown''
      | Some l \<Rightarrow> l)"

section \<open>Tree entries and the budgeted selection (lines 219-236)\<close>

text \<open>
  One entry of the tree listing. The \<^verbatim>\<open>size\<close> field may be absent, which is \<open>None\<close>.
\<close>

record TreeItem =
  item_path :: string
  item_type :: string
  item_size :: "int option"

text \<open>\<^verbatim>\<open>file.size || 0\<close>: an absent size and a zero size both read as 0.\<close>

definition size_or_0 :: "TreeItem \<Rightarrow> int" where
  "size_or_0 file = (case item_size file of None \<Rightarrow> 0 | Some n \<Rightarrow> n)"

text \<open>Lines 220-222: keep the blobs whose path the classifier accepts.\<close>

definition eligibleFiles :: "TreeItem list \<Rightarrow> TreeItem list" where
  "eligibleFiles entries =
     filter (\<lambda>item. item_type item = ''blob'' \<and> shouldIncludeFile (item_path item)) entries"

text \<open>
  Line 225: \<^verbatim>\<open>Array.prototype.sort\<close> with the comparator \<^verbatim>\<open>(a.size || 0) - (b.size || 0)\<close>.
  The platform's sort is stable, and a stable sort by a key has one possible result, which
  \<^const>\<open>sort_key\<close> computes.
\<close>

definition sortBySize :: "TreeItem list \<Rightarrow> TreeItem list" where
  "sortBySize allFiles = sort_key size_or_0 allFiles"

text \<open>
  The three limits of the walk. The route fixes them to its constants; the walk itself is
  written over any limits.
\<close>

record Limits =
  maxFiles :: nat
  maxFileSize :: int
  maxTotalSize :: int

definition route_limits :: Limits where
  "route_limits = \<lparr>maxFiles = MAX_FILES, maxFileSize = MAX_FILE_SIZE, maxTotalSize = MAX_TOTAL_SIZE\<rparr>"

text \<open>
  Lines 228-236, the \<^verbatim>\<open>for\<close> loop over the sorted files with its two accumulators
  \<^verbatim>\<open>filesToFetch\<close> and \<^verbatim>\<open>totalSize\<close>: \<^verbatim>\<open>break\<close> returns the accumulator, \<^verbatim>\<open>continue\<close>
  goes on with it unchanged.
\<close>

fun collectFiles :: "Limits \<Rightarrow> TreeItem list \<Rightarrow> TreeItem list \<Rightarrow> int \<Rightarrow> TreeItem list" where
  "collectFiles L [] filesToFetch totalSize = filesToFetch"
| "collectFiles L (file # rest) filesToFetch totalSize =
     (if maxFiles L \<le> length filesToFetch then filesToFetch
      else if maxFileSize L < size_or_0 file then collectFiles L rest filesToFetch totalSize
      else if maxTotalSize L < totalSize + size_or_0 file then filesToFetch
      else collectFiles L rest (filesToFetch @ [file]) (totalSize + size_or_0 file))"

definition selectFiles :: "Limits \<Rightarrow> TreeItem list \<Rightarrow> TreeItem list" where
  "selectFiles L allFiles = collectFiles L (sortBySize allFiles) [] 0"

section \<open>The platform the route runs on\<close>

text \<open>
  A thrown value: an \<^verbatim>\<open>Error\<close> with its message, or anything else.
\<close>

datatype exn = Error string | Thrown

text \<open>
  A parsed JSON response body, seen through the fields the route reads; a field that is
  absent (or \<^verbatim>\<open>null\<close>) is \<open>None\<close>. A field that is present is taken to have the type the
  route expects of it: strings for the branch, the encoding and the content, a list of
  entries with a path and a type for the tree.
\<close>

record JsonBody =
  default_branch :: "string option"
  tree :: "TreeItem list option"
  encoding :: "string option"
  content :: "string option"

text \<open>A response of \<^verbatim>\<open>fetch\<close>; \<^verbatim>\<open>json()\<close> either throws or gives the parsed body.\<close>

record Response =
  status :: nat
  statusText :: string
  json :: "exn + JsonBody"

definition ok :: "Response \<Rightarrow> bool" where
  "ok r = (200 \<le> status r \<and> status r \<le> 299)"

text \<open>
  What the route takes from its platform: the \<^verbatim>\<open>URL\<close> constructor, \<^verbatim>\<open>fetch\<close> (a
  rejected promise is \<open>Inl\<close>), \<^verbatim>\<open>Buffer.from(s, 'base64').toString('utf-8')\<close>, the
  environment variable \<^verbatim>\<open>GITHUB_TOKEN\<close>, for the batch that starts at index \<open>i\<close> the
  order in which its fetches complete, and the message of the error that
  \<^verbatim>\<open>NextResponse.json\<close> throws for a status it refuses.
\<close>

record Platform =
  new_URL :: "string \<Rightarrow> URL option"
  fetch :: "string \<Rightarrow> (string \<times> string) list \<Rightarrow> exn + Response"
  base64_to_utf8 :: "string \<Rightarrow> string"
  GITHUB_TOKEN :: "string option"
  settle_order :: "nat \<Rightarrow> nat list"
  init_error :: "nat \<Rightarrow> string"

text \<open>JavaScript truthiness of an optional string: present and not empty.\<close>

definition truthy :: "string option \<Rightarrow> bool" where
  "truthy s = (case s of None \<Rightarrow> False | Some x \<Rightarrow> x \<noteq> [])"

fun show_nat :: "nat \<Rightarrow> string" where
  "show_nat n =
     (if n < 10 then [char_of (48 + n)]
      else show_nat (n div 10) @ [char_of (48 + n mod 10)])"

declare show_nat.simps [simp del]

section \<open>Responses of the route\<close>

record FileRecord =
  rec_path :: string
  rec_content :: string
  rec_size :: int
  rec_language :: string

record SuccessBody =
  res_owner :: string
  res_repo :: string
  res_branch :: string
  files :: "FileRecord list"
  totalFiles :: int
  fetchedFiles :: int
  truncatedFiles :: int
  res_tree :: "(string \<times> int option) list"

text \<open>\<^verbatim>\<open>{ success: false, error }\<close> or \<^verbatim>\<open>{ success: true, ... }\<close>.\<close>

datatype ResponseBody = Failure string | Success SuccessBody

record NextResponse =
  res_status :: nat
  res_body :: ResponseBody

text \<open>
  The statuses with which the platform builds a response that has a body: those from 200
  to 599, except the ones that admit no body, 204, 205 and 304.
\<close>

definition accepted_status :: "nat \<Rightarrow> bool" where
  "accepted_status st = (200 \<le> st \<and> st \<le> 599 \<and> st \<notin> set [204, 205, 304])"

text \<open>
  \<^verbatim>\<open>NextResponse.json(body, { status })\<close>: the response, or the error (\<open>Inl\<close>) that the
  platform throws for a status it does not accept. Called without a status, the status is
  200.
\<close>

definition NextResponse_json :: "Platform \<Rightarrow> ResponseBody \<Rightarrow> nat \<Rightarrow> exn + NextResponse" where
  "NextResponse_json P b st =
     (if accepted_status st then Inr \<lparr>res_status = st, res_body = b\<rparr>
      else Inl (Error (init_error P st)))"

text \<open>
  The outer \<^verbatim>\<open>catch\<close> (lines 285-293). Its status is 500, which \<^verbatim>\<open>NextResponse.json\<close>
  accepts.
\<close>

definition caught :: "exn \<Rightarrow> NextResponse" where
  "caught e =
     \<lparr>res_status = 500,
      res_body = Failure (case e of Error m \<Rightarrow> m | Thrown \<Rightarrow> ''Failed to fetch repository'')\<rparr>"

text \<open>
  \<^verbatim>\<open>return NextResponse.json(body, { status })\<close> inside the \<^verbatim>\<open>try\<close> of the handler: what the
  call throws is caught by the outer \<^verbatim>\<open>catch\<close>.
\<close>

definition returned :: "Platform \<Rightarrow> ResponseBody \<Rightarrow> nat \<Rightarrow> NextResponse" where
  "returned P b st =
     (case NextResponse_json P b st of
        Inl e \<Rightarrow> caught e
      | Inr response \<Rightarrow> response)"

text \<open>
  The two fields of the request body, each absent or a string.
\<close>

record RequestBody =
  repoUrl :: "string option"
  requestedBranch :: "string option"

section \<open>The route handler (lines 152-294)\<close>

text \<open>Lines 175-184.\<close>

definition requestHeaders :: "Platform \<Rightarrow> (string \<times> string) list" where
  "requestHeaders P =
     [(''Accept'', ''application/vnd.github.v3+json''), (''User-Agent'', ''CodeReview-AI'')]
     @ (case GITHUB_TOKEN P of
          None \<Rightarrow> []
        | Some ghToken \<Rightarrow> if ghToken = [] then [] else [(''Authorization'', ''Bearer '' @ ghToken)])"

definition repoApiUrl :: "string \<Rightarrow> string \<Rightarrow> string" where
  "repoApiUrl ow rp = GITHUB_API @ ''/repos/'' @ ow @ ''/'' @ rp"

definition treeApiUrl :: "string \<Rightarrow> string \<Rightarrow> string \<Rightarrow> string" where
  "treeApiUrl ow rp targetBranch =
     GITHUB_API @ ''/repos/'' @ ow @ ''/'' @ rp @ ''/git/trees/'' @ targetBranch @ ''?recursive=1''"

definition contentApiUrl :: "string \<Rightarrow> string \<Rightarrow> string \<Rightarrow> TreeItem \<Rightarrow> string" where
  "contentApiUrl ow rp targetBranch file =
     GITHUB_API @ ''/repos/'' @ ow @ ''/'' @ rp @ ''/contents/'' @ item_path file
       @ ''?ref='' @ targetBranch"

text \<open>
  Each stage returns its value, or the response of an early \<^verbatim>\<open>return\<close> (\<open>Inl\<close>), together
  with the addresses it has requested, in order.
\<close>

text \<open>Lines 186-204: the default branch, asked for only when no branch is given.\<close>

definition getDefaultBranch ::
  "Platform \<Rightarrow> (string \<times> string) list \<Rightarrow> string \<Rightarrow> string \<Rightarrow> string option
     \<Rightarrow> (NextResponse + string) \<times> string list" where
  "getDefaultBranch P headers ow rp br =
     (case (if truthy br then br else None) of
        Some targetBranch \<Rightarrow> (Inr targetBranch, [])
      | None \<Rightarrow>
          (case fetch P (repoApiUrl ow rp) headers of
             Inl e \<Rightarrow> (Inl (caught e), [repoApiUrl ow rp])
           | Inr repoRes \<Rightarrow>
               if \<not> ok repoRes then
                 (if status repoRes = 404 then
                    (Inl (returned P
                            (Failure (''Repository '' @ ow @ ''/'' @ rp
                                      @ '' not found. Make sure it exists and is public.''))
                            404),
                     [repoApiUrl ow rp])
                  else
                    (Inl (returned P
                            (Failure (''GitHub API error: '' @ show_nat (status repoRes) @ '' ''
                                      @ statusText repoRes))
                            (status repoRes)),
                     [repoApiUrl ow rp]))
               else
                 (case json repoRes of
                    Inl e \<Rightarrow> (Inl (caught e), [repoApiUrl ow rp])
                  | Inr repoData \<Rightarrow>
                      (Inr (case default_branch repoData of
                              None \<Rightarrow> ''main''
                            | Some b \<Rightarrow> if b = [] then ''main'' else b),
                       [repoApiUrl ow rp]))))"

text \<open>Lines 206-225: the recursive tree, filtered and sorted by size.\<close>

definition getFileTree ::
  "Platform \<Rightarrow> (string \<times> string) list \<Rightarrow> string \<Rightarrow> string \<Rightarrow> string
     \<Rightarrow> (NextResponse + TreeItem list) \<times> string list" where
  "getFileTree P headers ow rp targetBranch =
     (case fetch P (treeApiUrl ow rp targetBranch) headers of
        Inl e \<Rightarrow> (Inl (caught e), [treeApiUrl ow rp targetBranch])
      | Inr treeRes \<Rightarrow>
          if \<not> ok treeRes then
            (Inl (returned P
                    (Failure (''Failed to fetch repo tree: '' @ show_nat (status treeRes) @ '' ''
                              @ statusText treeRes))
                    (status treeRes)),
             [treeApiUrl ow rp targetBranch])
          else
            (case json treeRes of
               Inl e \<Rightarrow> (Inl (caught e), [treeApiUrl ow rp targetBranch])
             | Inr treeData \<Rightarrow>
                 (Inr (sortBySize
                         (eligibleFiles (case tree treeData of None \<Rightarrow> [] | Some t \<Rightarrow> t))),
                  [treeApiUrl ow rp targetBranch])))"

text \<open>
  Lines 245-269, the function mapped over a batch: one request, and \<^verbatim>\<open>null\<close> (\<open>None\<close>)
  on every path but the one that builds the record. The inner \<^verbatim>\<open>catch\<close> covers a rejected
  fetch and a body that does not parse.
\<close>

definition fetchFile ::
  "Platform \<Rightarrow> (string \<times> string) list \<Rightarrow> string \<Rightarrow> string \<Rightarrow> string \<Rightarrow> TreeItem
     \<Rightarrow> FileRecord option \<times> string list" where
  "fetchFile P headers ow rp targetBranch file =
     ((case fetch P (contentApiUrl ow rp targetBranch file) headers of
         Inl e \<Rightarrow> None
       | Inr contentRes \<Rightarrow>
           if \<not> ok contentRes then None
           else
             (case json contentRes of
                Inl e \<Rightarrow> None
              | Inr contentData \<Rightarrow>
                  (case (encoding contentData, content contentData) of
                     (Some enc, Some c) \<Rightarrow>
                       if enc = ''base64'' \<and> c \<noteq> [] then
                         (let decoded = base64_to_utf8 P c in
                          if CHR 0x00 \<in> set decoded then None
                          else Some \<lparr>rec_path = item_path file,
                                     rec_content = decoded,
                                     rec_size = (case item_size file of
                                                   None \<Rightarrow> int (length decoded)
                                                 | Some n \<Rightarrow> if n = 0 then int (length decoded) else n),
                                     rec_language = getLanguageFromPath (item_path file)\<rparr>)
                       else None
                   | _ \<Rightarrow> None))),
      [contentApiUrl ow rp targetBranch file])"

text \<open>
  \<^verbatim>\<open>Promise.all\<close>: every promise stores its value in the slot of its own index when it
  settles, and the array of slots is the result once all have settled. The promises named
  in \<open>order\<close> settle first, in that order; the others settle after them.
\<close>

definition Promise_all :: "nat list \<Rightarrow> 'a list \<Rightarrow> 'a list" where
  "Promise_all order promises =
     (let n = length promises;
          settled = filter (\<lambda>i. i < n) order @ [0..<n];
          slots = fold (\<lambda>i vs. vs[i := Some (promises ! i)]) settled (replicate n None)
      in concat (map (\<lambda>v. case v of None \<Rightarrow> [] | Some x \<Rightarrow> [x]) slots))"

definition BATCH_SIZE :: nat where
  "BATCH_SIZE = 10"

definition slice :: "'a list \<Rightarrow> nat \<Rightarrow> nat \<Rightarrow> 'a list" where
  "slice xs a b = take (b - a) (drop a xs)"

text \<open>
  Lines 242-272, the batch loop with its index \<open>i\<close> and its accumulator \<^verbatim>\<open>results\<close>
  (and the requests made so far): \<^verbatim>\<open>filter(Boolean)\<close> keeps the records and drops the
  \<^verbatim>\<open>null\<close>s.
\<close>

function fetchContents ::
  "(nat \<Rightarrow> nat list) \<Rightarrow> (TreeItem \<Rightarrow> FileRecord option \<times> string list) \<Rightarrow> TreeItem list \<Rightarrow> nat
     \<Rightarrow> FileRecord list \<times> string list \<Rightarrow> FileRecord list \<times> string list" where
  "fetchContents sched get filesToFetch i (results, log) =
     (if i < length filesToFetch then
        (let batch = slice filesToFetch i (i + BATCH_SIZE);
             batchResults = Promise_all (sched i) (map (\<lambda>file. fst (get file)) batch)
         in fetchContents sched get filesToFetch (i + BATCH_SIZE)
              (results @ concat (map (\<lambda>r. case r of None \<Rightarrow> [] | Some x \<Rightarrow> [x]) batchResults),
               log @ concat (map (\<lambda>file. snd (get file)) batch)))
      else (results, log))"
  by pat_completeness auto

termination
  by (relation "measure (\<lambda>(sched, get, filesToFetch, i, acc). length filesToFetch - i)")
     (auto simp: BATCH_SIZE_def)

text \<open>
  The handler. The request body is \<open>Inl\<close> when \<^verbatim>\<open>request.json()\<close> throws. The result is the
  response together with every address requested from the hosting service, in order.
\<close>

definition POST :: "Platform \<Rightarrow> exn + RequestBody \<Rightarrow> NextResponse \<times> string list" where
  "POST P request =
     (case request of
        Inl e \<Rightarrow> (caught e, [])
      | Inr body \<Rightarrow>
          (case (if truthy (repoUrl body) then repoUrl body else None) of
             None \<Rightarrow> (returned P (Failure ''repoUrl is required'') 400, [])
           | Some url \<Rightarrow>
               (case parseGitHubUrl (new_URL P) url of
                  None \<Rightarrow>
                    (returned P
                       (Failure ''Invalid GitHub URL. Use format: https://github.com/owner/repo or owner/repo'')
                       400,
                     [])
                | Some parsed \<Rightarrow>
                    (let br = (if truthy (requestedBranch body) then requestedBranch body
                               else branch parsed);
                         headers = requestHeaders P
                     in case getDefaultBranch P headers (owner parsed) (repo parsed) br of
                          (Inl response, log1) \<Rightarrow> (response, log1)
                        | (Inr targetBranch, log1) \<Rightarrow>
                            (case getFileTree P headers (owner parsed) (repo parsed) targetBranch of
                               (Inl response, log2) \<Rightarrow> (response, log1 @ log2)
                             | (Inr allFiles, log2) \<Rightarrow>
                                 (let filesToFetch = collectFiles route_limits allFiles [] 0;
                                      fetched =
                                        fetchContents (settle_order P)
                                          (fetchFile P headers (owner parsed) (repo parsed) targetBranch)
                                          filesToFetch 0 ([], [])
                                  in (returned P
                                        (Success
                                           \<lparr>res_owner = owner parsed,
                                            res_repo = repo parsed,
                                            res_branch = targetBranch,
                                            files = fst fetched,
                                            totalFiles = int (length allFiles),
                                            fetchedFiles = int (length (fst fetched)),
                                            truncatedFiles =
                                              int (length allFiles) - int (length (fst fetched)),
                                            res_tree =
                                              map (\<lambda>f. (item_path f, item_size f)) allFiles\<rparr>)
                                        200,
                                      log1 @ log2 @ snd fetched)))))))"

section \<open>A small hosting service, for running the handler\<close>

text \<open>
  An instance of the platform on which the handler can be evaluated. The repository
  \<^verbatim>\<open>acme/widgets\<close> has the default branch \<^verbatim>\<open>main\<close> with four reviewable files, of which the
  second cannot be fetched and the fourth is oversized, and a branch \<^verbatim>\<open>dev\<close> whose files
  have an absent size, binary content and empty content. Every other address rejects. The
  decoder knows the three contents that occur.
\<close>

definition demo_decode :: "string \<Rightarrow> string" where
  "demo_decode s =
     (case map_of [(''eCA9IDE='', ''x = 1''),
                   (''cHJpbnQoMSk='', ''print(1)''),
                   (''AAEC'', [CHR 0x00, CHR 0x01, CHR 0x02])] s of
        None \<Rightarrow> []
      | Some t \<Rightarrow> t)"

definition no_fields :: JsonBody where
  "no_fields = \<lparr>default_branch = None, tree = None, encoding = None, content = None\<rparr>"

definition respond_ok :: "JsonBody \<Rightarrow> Response" where
  "respond_ok b = \<lparr>status = 200, statusText = ''OK'', json = Inr b\<rparr>"

definition not_found :: Response where
  "not_found = \<lparr>status = 404, statusText = ''Not Found'', json = Inr no_fields\<rparr>"

definition main_tree :: "TreeItem list" where
  "main_tree =
     [\<lparr>item_path = ''src'', item_type = ''tree'', item_size = None\<rparr>,
      \<lparr>item_path = ''src/a.py'', item_type = ''blob'', item_size = Some 5\<rparr>,
      \<lparr>item_path = ''src/b.py'', item_type = ''blob'', item_size = Some 7\<rparr>,
      \<lparr>item_path = ''src/c.py'', item_type = ''blob'', item_size = Some 8\<rparr>,
      \<lparr>item_path = ''src/huge.py'', item_type = ''blob'', item_size = Some 100001\<rparr>,
      \<lparr>item_path = ''node_modules/d.js'', item_type = ''blob'', item_size = Some 1\<rparr>]"

definition dev_tree :: "TreeItem list" where
  "dev_tree =
     [\<lparr>item_path = ''bin.py'', item_type = ''blob'', item_size = Some 3\<rparr>,
      \<lparr>item_path = ''e.py'', item_type = ''blob'', item_size = None\<rparr>,
      \<lparr>item_path = ''empty.py'', item_type = ''blob'', item_size = Some 0\<rparr>]"

definition file_body :: "string \<Rightarrow> JsonBody" where
  "file_body c = no_fields\<lparr>encoding := Some ''base64'', content := Some c\<rparr>"

definition demo_fetch :: "string \<Rightarrow> (string \<times> string) list \<Rightarrow> exn + Response" where
  "demo_fetch url headers =
     (case map_of
        [(''https://api.github.com/repos/acme/widgets'',
            respond_ok (no_fields\<lparr>default_branch := Some ''main''\<rparr>)),
         (''https://api.github.com/repos/acme/widgets/git/trees/main?recursive=1'',
            respond_ok (no_fields\<lparr>tree := Some main_tree\<rparr>)),
         (''https://api.github.com/repos/acme/widgets/contents/src/a.py?ref=main'',
            respond_ok (file_body ''eCA9IDE='')),
         (''https://api.github.com/repos/acme/widgets/contents/src/b.py?ref=main'',
            not_found),
         (''https://api.github.com/repos/acme/widgets/contents/src/c.py?ref=main'',
            respond_ok (file_body ''cHJpbnQoMSk='')),
         (''https://api.github.com/repos/acme/widgets/git/trees/dev?recursive=1'',
            respond_ok (no_fields\<lparr>tree := Some dev_tree\<rparr>)),
         (''https://api.github.com/repos/acme/widgets/contents/bin.py?ref=dev'',
            respond_ok (file_body ''AAEC'')),
         (''https://api.github.com/repos/acme/widgets/contents/e.py?ref=dev'',
            respond_ok (file_body ''cHJpbnQoMSk='')),
         (''https://api.github.com/repos/acme/widgets/contents/empty.py?ref=dev'',
            respond_ok (file_body [])),
         (''https://api.github.com/repos/acme/gone'', not_found),
         (''https://api.github.com/repos/acme/cached'',
            \<lparr>status = 304, statusText = ''Not Modified'', json = Inr no_fields\<rparr>),
         (''https://api.github.com/repos/acme/widgets/git/trees/nope?recursive=1'', not_found),
         (''https://api.github.com/repos/acme/widgets/git/trees/busy?recursive=1'',
            \<lparr>status = 503, statusText = ''Service Unavailable'', json = Inr no_fields\<rparr>)]
        url of
        None \<Rightarrow> Inl (Error ''fetch failed'')
      | Some r \<Rightarrow> Inr r)"

definition demo :: Platform where
  "demo = \<lparr>new_URL = simple_URL, fetch = demo_fetch, base64_to_utf8 = demo_decode,
           GITHUB_TOKEN = None, settle_order = (\<lambda>i. [2, 0, 1]),
           init_error = (\<lambda>st. ''Invalid response status code '' @ show_nat st)\<rparr>"

section \<open>The budgeted selection stays within its limits\<close>

text \<open>
  The walk keeps three facts about its accumulator: its length, the sum of its sizes (which
  is the running total) and the size of each member.
\<close>

lemma collectFiles_bounds:
  "length acc \<le> maxFiles L \<Longrightarrow> sum_list (map size_or_0 acc) = tot \<Longrightarrow> tot \<le> maxTotalSize L
   \<Longrightarrow> \<forall>f \<in> set acc. size_or_0 f \<le> maxFileSize L
   \<Longrightarrow> length (collectFiles L fs acc tot) \<le> maxFiles L
       \<and> sum_list (map size_or_0 (collectFiles L fs acc tot)) \<le> maxTotalSize L
       \<and> (\<forall>f \<in> set (collectFiles L fs acc tot). size_or_0 f \<le> maxFileSize L)"
proof (induction fs arbitrary: acc tot)
  case Nil
  then show ?case by simp
next
  case (Cons fl rest)
  show ?case
  proof (cases "maxFiles L \<le> length acc")
    case True
    with Cons.prems show ?thesis by simp
  next
    case full: False
    show ?thesis
    proof (cases "maxFileSize L < size_or_0 fl")
      case True
      have "collectFiles L (fl # rest) acc tot = collectFiles L rest acc tot"
        using full True by simp
      then show ?thesis using Cons.IH [OF Cons.prems] by simp
    next
      case fits: False
      show ?thesis
      proof (cases "maxTotalSize L < tot + size_or_0 fl")
        case True
        have "collectFiles L (fl # rest) acc tot = acc"
          using full fits True by simp
        then show ?thesis using Cons.prems by simp
      next
        case False
        have e: "collectFiles L (fl # rest) acc tot
                 = collectFiles L rest (acc @ [fl]) (tot + size_or_0 fl)"
          using full fits False by simp
        have "length (acc @ [fl]) \<le> maxFiles L" using full by simp
        moreover have "sum_list (map size_or_0 (acc @ [fl])) = tot + size_or_0 fl"
          using Cons.prems(2) by simp
        moreover have "tot + size_or_0 fl \<le> maxTotalSize L" using False by simp
        moreover have "\<forall>f \<in> set (acc @ [fl]). size_or_0 f \<le> maxFileSize L"
          using fits Cons.prems(4) by auto
        ultimately show ?thesis
          unfolding e by (rule Cons.IH)
      qed
    qed
  qed
qed

text \<open>
  C1. For every sequence of eligible files, the set selected under the limits of the route
  has at most 50 members, the sizes of its members sum to at most 500000, and every member
  has size at most 100000, where an absent size counts as 0.
\<close>

theorem selected_set_within_budget:
  "length (selectFiles route_limits allFiles) \<le> 50
   \<and> sum_list (map size_or_0 (selectFiles route_limits allFiles)) \<le> 500000
   \<and> (\<forall>f \<in> set (selectFiles route_limits allFiles). size_or_0 f \<le> 100000)"
proof -
  have "length (collectFiles route_limits (sortBySize allFiles) [] 0) \<le> maxFiles route_limits
        \<and> sum_list (map size_or_0 (collectFiles route_limits (sortBySize allFiles) [] 0))
            \<le> maxTotalSize route_limits
        \<and> (\<forall>f \<in> set (collectFiles route_limits (sortBySize allFiles) [] 0).
              size_or_0 f \<le> maxFileSize route_limits)"
    by (rule collectFiles_bounds) (simp_all add: route_limits_def MAX_TOTAL_SIZE_def)
  then show ?thesis
    by (simp add: selectFiles_def route_limits_def MAX_FILES_def MAX_TOTAL_SIZE_def
        MAX_FILE_SIZE_def)
qed

theorem selected_set_within_budget_witness:
  "selectFiles route_limits
     [\<lparr>item_path = ''big.py'', item_type = ''blob'', item_size = Some 100001\<rparr>,
      \<lparr>item_path = ''a.py'', item_type = ''blob'', item_size = Some 50\<rparr>,
      \<lparr>item_path = ''e.py'', item_type = ''blob'', item_size = None\<rparr>]
   = [\<lparr>item_path = ''e.py'', item_type = ''blob'', item_size = None\<rparr>,
      \<lparr>item_path = ''a.py'', item_type = ''blob'', item_size = Some 50\<rparr>]
   \<and> \<lparr>item_path = ''a.py'', item_type = ''blob'', item_size = Some 50\<rparr>
       \<in> set (selectFiles route_limits
            [\<lparr>item_path = ''big.py'', item_type = ''blob'', item_size = Some 100001\<rparr>,
             \<lparr>item_path = ''a.py'', item_type = ''blob'', item_size = Some 50\<rparr>,
             \<lparr>item_path = ''e.py'', item_type = ''blob'', item_size = None\<rparr>])
   \<and> size_or_0 \<lparr>item_path = ''a.py'', item_type = ''blob'', item_size = Some 50\<rparr> \<le> 100000"
  using selected_set_within_budget
    [of "[\<lparr>item_path = ''big.py'', item_type = ''blob'', item_size = Some 100001\<rparr>,
          \<lparr>item_path = ''a.py'', item_type = ''blob'', item_size = Some 50\<rparr>,
          \<lparr>item_path = ''e.py'', item_type = ''blob'', item_size = None\<rparr>]"]
  by (simp add: selectFiles_def sortBySize_def size_or_0_def route_limits_def MAX_FILES_def
      MAX_TOTAL_SIZE_def MAX_FILE_SIZE_def)


section \<open>The classifier and the two special names\<close>

lemma file_ext_empty_iff: "file_ext fileName = [] \<longleftrightarrow> CHR ''.'' \<notin> set fileName"
  by (simp add: file_ext_def)

lemma shouldIncludeFile_iff:
  "shouldIncludeFile path
   \<longleftrightarrow> \<not> (\<exists>part \<in> set (butlast (split_chr CHR ''/'' path)). part \<in> set SKIP_DIRS)
       \<and> last (split_chr CHR ''/'' path) \<notin> set SKIP_FILES
       \<and> CHR ''.'' \<in> set (last (split_chr CHR ''/'' path))
       \<and> file_ext (last (split_chr CHR ''/'' path)) \<in> set CODE_EXTENSIONS"
proof -
  let ?fileName = "last (split_chr CHR ''/'' path)"
  have special: "?fileName = ''Dockerfile'' \<or> ?fileName = ''Makefile''
                 \<Longrightarrow> CHR ''.'' \<notin> set ?fileName"
    by auto
  have listed: "file_ext ?fileName \<in> set CODE_EXTENSIONS \<Longrightarrow> file_ext ?fileName \<noteq> []"
    by (auto simp: CODE_EXTENSIONS_def)
  show ?thesis
    unfolding shouldIncludeFile_def Let_def
    using special listed file_ext_empty_iff [of ?fileName] by auto
qed

text \<open>
  C2. The claim makes a final segment that is exactly \<^verbatim>\<open>Dockerfile\<close> or \<^verbatim>\<open>Makefile\<close>
  eligible. The classifier rejects both: neither name contains a dot, so the extension is
  empty and line 146 returns \<^verbatim>\<open>false\<close> before line 147 is reached. What the classifier
  accepts is exactly the paths with no excluded directory before the final segment, whose
  final segment is not an excluded file name, contains a dot, and has a listed extension.
\<close>

theorem shouldIncludeFile_rejects_special_names:
  "shouldIncludeFile ''Dockerfile'' = False \<and> shouldIncludeFile ''Makefile'' = False
   \<and> shouldIncludeFile ''docker/Dockerfile'' = False
   \<and> shouldIncludeFile path
       = (\<not> (\<exists>part \<in> set (butlast (split_chr CHR ''/'' path)). part \<in> set SKIP_DIRS)
          \<and> last (split_chr CHR ''/'' path) \<notin> set SKIP_FILES
          \<and> CHR ''.'' \<in> set (last (split_chr CHR ''/'' path))
          \<and> file_ext (last (split_chr CHR ''/'' path)) \<in> set CODE_EXTENSIONS)"
proof -
  have a: "shouldIncludeFile ''Dockerfile'' = False"
    by (simp add: shouldIncludeFile_def file_ext_def SKIP_DIRS_def SKIP_FILES_def)
  have b: "shouldIncludeFile ''Makefile'' = False"
    by (simp add: shouldIncludeFile_def file_ext_def SKIP_DIRS_def SKIP_FILES_def)
  have c: "shouldIncludeFile ''docker/Dockerfile'' = False"
    by (simp add: shouldIncludeFile_def file_ext_def SKIP_DIRS_def SKIP_FILES_def)
  show ?thesis
    by (rule conjI [OF a conjI [OF b conjI [OF c shouldIncludeFile_iff]]])
qed


section \<open>The shape of the greedy walk\<close>

text \<open>
  The walk selects the files of a prefix of its input that are not oversized, and where it
  stops before the end, the count is exhausted or the next file would exceed the total.
\<close>

lemma collectFiles_walk:
  "\<exists>pre suf. fs = pre @ suf
     \<and> collectFiles L fs acc tot = acc @ filter (\<lambda>f. size_or_0 f \<le> maxFileSize L) pre
     \<and> (suf = []
        \<or> maxFiles L \<le> length (collectFiles L fs acc tot)
        \<or> (size_or_0 (hd suf) \<le> maxFileSize L
           \<and> maxTotalSize L
               < tot + sum_list (map size_or_0 (filter (\<lambda>f. size_or_0 f \<le> maxFileSize L) pre))
                 + size_or_0 (hd suf)))"
proof (induction fs arbitrary: acc tot)
  case Nil
  show ?case by simp
next
  case (Cons fl rest)
  let ?keep = "filter (\<lambda>f. size_or_0 f \<le> maxFileSize L)"
  show ?case
  proof (cases "maxFiles L \<le> length acc")
    case True
    have e: "collectFiles L (fl # rest) acc tot = acc" using True by simp
    have "fl # rest = [] @ (fl # rest)
       \<and> collectFiles L (fl # rest) acc tot = acc @ ?keep []
       \<and> maxFiles L \<le> length (collectFiles L (fl # rest) acc tot)"
      unfolding e using True by simp
    then show ?thesis by blast
  next
    case full: False
    show ?thesis
    proof (cases "maxFileSize L < size_or_0 fl")
      case True
      have e: "collectFiles L (fl # rest) acc tot = collectFiles L rest acc tot"
        using full True by simp
      from Cons.IH [of acc tot] obtain pre suf where
        h1: "rest = pre @ suf" and
        h2: "collectFiles L rest acc tot = acc @ ?keep pre" and
        h3: "suf = [] \<or> maxFiles L \<le> length (collectFiles L rest acc tot)
            \<or> (size_or_0 (hd suf) \<le> maxFileSize L
               \<and> maxTotalSize L < tot + sum_list (map size_or_0 (?keep pre)) + size_or_0 (hd suf))"
        by blast
      have k: "?keep (fl # pre) = ?keep pre" using True by simp
      have "fl # rest = (fl # pre) @ suf" using h1 by simp
      moreover have "collectFiles L (fl # rest) acc tot = acc @ ?keep (fl # pre)"
        unfolding e k by (rule h2)
      moreover have "suf = [] \<or> maxFiles L \<le> length (collectFiles L (fl # rest) acc tot)
            \<or> (size_or_0 (hd suf) \<le> maxFileSize L
               \<and> maxTotalSize L
                   < tot + sum_list (map size_or_0 (?keep (fl # pre))) + size_or_0 (hd suf))"
        unfolding e k by (rule h3)
      ultimately show ?thesis by blast
    next
      case fits: False
      show ?thesis
      proof (cases "maxTotalSize L < tot + size_or_0 fl")
        case True
        have e: "collectFiles L (fl # rest) acc tot = acc" using full fits True by simp
        have "fl # rest = [] @ (fl # rest)
           \<and> collectFiles L (fl # rest) acc tot = acc @ ?keep []
           \<and> (size_or_0 (hd (fl # rest)) \<le> maxFileSize L
              \<and> maxTotalSize L
                  < tot + sum_list (map size_or_0 (?keep [])) + size_or_0 (hd (fl # rest)))"
          unfolding e using fits True by simp
        then show ?thesis by blast
      next
        case False
        have e: "collectFiles L (fl # rest) acc tot
                 = collectFiles L rest (acc @ [fl]) (tot + size_or_0 fl)"
          using full fits False by simp
        from Cons.IH [of "acc @ [fl]" "tot + size_or_0 fl"] obtain pre suf where
          h1: "rest = pre @ suf" and
          h2: "collectFiles L rest (acc @ [fl]) (tot + size_or_0 fl) = (acc @ [fl]) @ ?keep pre" and
          h3: "suf = [] \<or> maxFiles L \<le> length (collectFiles L rest (acc @ [fl]) (tot + size_or_0 fl))
              \<or> (size_or_0 (hd suf) \<le> maxFileSize L
                 \<and> maxTotalSize L
                     < (tot + size_or_0 fl) + sum_list (map size_or_0 (?keep pre))
                       + size_or_0 (hd suf))"
          by blast
        have k: "?keep (fl # pre) = fl # ?keep pre" using fits by simp
        have "fl # rest = (fl # pre) @ suf" using h1 by simp
        moreover have "collectFiles L (fl # rest) acc tot = acc @ ?keep (fl # pre)"
          unfolding e k using h2 by simp
        moreover have "suf = [] \<or> maxFiles L \<le> length (collectFiles L (fl # rest) acc tot)
              \<or> (size_or_0 (hd suf) \<le> maxFileSize L
                 \<and> maxTotalSize L
                     < tot + sum_list (map size_or_0 (?keep (fl # pre))) + size_or_0 (hd suf))"
          unfolding e k using h3 by (simp add: add.assoc)
        ultimately show ?thesis by blast
      qed
    qed
  qed
qed

text \<open>
  C3. The selector sorts the eligible files by size, ascending and stable (files of equal
  size keep their listing order). The selected set is then the not-oversized files of a
  prefix of the sorted sequence: an oversized file inside the prefix is skipped and the
  walk goes on, and where the prefix ends before the sequence does, either the count has
  reached the limit or the next file is not oversized and would push the total past the
  limit. The selected set itself stays within the three limits. For the tree
  \<^verbatim>\<open>[{a.py,50},{b/node_modules/c.js,10},{d.md,5000}]\<close> the eligible files are \<^verbatim>\<open>a.py\<close> and
  \<^verbatim>\<open>d.md\<close>, in that order after sorting, and with a total limit of 100 the selected set is
  \<^verbatim>\<open>[a.py]\<close>.
\<close>

theorem selector_sorts_then_walks:
  "sorted (map size_or_0 (sortBySize fs))
   \<and> (\<forall>k. filter (\<lambda>f. size_or_0 f = k) (sortBySize fs) = filter (\<lambda>f. size_or_0 f = k) fs)
   \<and> (\<exists>pre suf.
         sortBySize fs = pre @ suf
         \<and> selectFiles L fs = filter (\<lambda>f. size_or_0 f \<le> maxFileSize L) pre
         \<and> (suf = []
            \<or> maxFiles L \<le> length (selectFiles L fs)
            \<or> (size_or_0 (hd suf) \<le> maxFileSize L
               \<and> maxTotalSize L
                   < sum_list (map size_or_0 (selectFiles L fs)) + size_or_0 (hd suf))))
   \<and> (0 \<le> maxTotalSize L
      \<longrightarrow> length (selectFiles L fs) \<le> maxFiles L
          \<and> sum_list (map size_or_0 (selectFiles L fs)) \<le> maxTotalSize L)
   \<and> eligibleFiles
        [\<lparr>item_path = ''a.py'', item_type = ''blob'', item_size = Some 50\<rparr>,
         \<lparr>item_path = ''b/node_modules/c.js'', item_type = ''blob'', item_size = Some 10\<rparr>,
         \<lparr>item_path = ''d.md'', item_type = ''blob'', item_size = Some 5000\<rparr>]
      = [\<lparr>item_path = ''a.py'', item_type = ''blob'', item_size = Some 50\<rparr>,
         \<lparr>item_path = ''d.md'', item_type = ''blob'', item_size = Some 5000\<rparr>]
   \<and> sortBySize
        [\<lparr>item_path = ''a.py'', item_type = ''blob'', item_size = Some 50\<rparr>,
         \<lparr>item_path = ''d.md'', item_type = ''blob'', item_size = Some 5000\<rparr>]
      = [\<lparr>item_path = ''a.py'', item_type = ''blob'', item_size = Some 50\<rparr>,
         \<lparr>item_path = ''d.md'', item_type = ''blob'', item_size = Some 5000\<rparr>]
   \<and> selectFiles (route_limits\<lparr>maxTotalSize := 100\<rparr>)
        [\<lparr>item_path = ''a.py'', item_type = ''blob'', item_size = Some 50\<rparr>,
         \<lparr>item_path = ''d.md'', item_type = ''blob'', item_size = Some 5000\<rparr>]
      = [\<lparr>item_path = ''a.py'', item_type = ''blob'', item_size = Some 50\<rparr>]"
proof -
  have a: "sorted (map size_or_0 (sortBySize fs))"
    by (simp add: sortBySize_def)
  have b: "\<forall>k. filter (\<lambda>f. size_or_0 f = k) (sortBySize fs) = filter (\<lambda>f. size_or_0 f = k) fs"
    by (simp add: sortBySize_def sort_key_stable)
  have c: "\<exists>pre suf.
         sortBySize fs = pre @ suf
         \<and> selectFiles L fs = filter (\<lambda>f. size_or_0 f \<le> maxFileSize L) pre
         \<and> (suf = []
            \<or> maxFiles L \<le> length (selectFiles L fs)
            \<or> (size_or_0 (hd suf) \<le> maxFileSize L
               \<and> maxTotalSize L
                   < sum_list (map size_or_0 (selectFiles L fs)) + size_or_0 (hd suf)))"
  proof -
    let ?keep = "filter (\<lambda>f. size_or_0 f \<le> maxFileSize L)"
    from collectFiles_walk [of "sortBySize fs" L "[]" 0] obtain pre suf where
      h1: "sortBySize fs = pre @ suf" and
      h2: "collectFiles L (sortBySize fs) [] 0 = [] @ ?keep pre" and
      h3: "suf = [] \<or> maxFiles L \<le> length (collectFiles L (sortBySize fs) [] 0)
           \<or> (size_or_0 (hd suf) \<le> maxFileSize L
              \<and> maxTotalSize L < 0 + sum_list (map size_or_0 (?keep pre)) + size_or_0 (hd suf))"
      by blast
    have s: "selectFiles L fs = ?keep pre"
      using h2 by (simp add: selectFiles_def)
    have "suf = [] \<or> maxFiles L \<le> length (selectFiles L fs)
          \<or> (size_or_0 (hd suf) \<le> maxFileSize L
             \<and> maxTotalSize L < sum_list (map size_or_0 (selectFiles L fs)) + size_or_0 (hd suf))"
      using h3 unfolding s by (simp add: selectFiles_def h2)
    with h1 s show ?thesis by blast
  qed
  have w: "0 \<le> maxTotalSize L
      \<longrightarrow> length (selectFiles L fs) \<le> maxFiles L
          \<and> sum_list (map size_or_0 (selectFiles L fs)) \<le> maxTotalSize L"
  proof
    assume "0 \<le> maxTotalSize L"
    then have "length (collectFiles L (sortBySize fs) [] 0) \<le> maxFiles L
        \<and> sum_list (map size_or_0 (collectFiles L (sortBySize fs) [] 0)) \<le> maxTotalSize L
        \<and> (\<forall>f \<in> set (collectFiles L (sortBySize fs) [] 0). size_or_0 f \<le> maxFileSize L)"
      by (intro collectFiles_bounds) simp_all
    then show "length (selectFiles L fs) \<le> maxFiles L
          \<and> sum_list (map size_or_0 (selectFiles L fs)) \<le> maxTotalSize L"
      by (simp add: selectFiles_def)
  qed
  have d: "eligibleFiles
        [\<lparr>item_path = ''a.py'', item_type = ''blob'', item_size = Some 50\<rparr>,
         \<lparr>item_path = ''b/node_modules/c.js'', item_type = ''blob'', item_size = Some 10\<rparr>,
         \<lparr>item_path = ''d.md'', item_type = ''blob'', item_size = Some 5000\<rparr>]
      = [\<lparr>item_path = ''a.py'', item_type = ''blob'', item_size = Some 50\<rparr>,
         \<lparr>item_path = ''d.md'', item_type = ''blob'', item_size = Some 5000\<rparr>]"
    by code_simp
  have e: "sortBySize
        [\<lparr>item_path = ''a.py'', item_type = ''blob'', item_size = Some 50\<rparr>,
         \<lparr>item_path = ''d.md'', item_type = ''blob'', item_size = Some 5000\<rparr>]
      = [\<lparr>item_path = ''a.py'', item_type = ''blob'', item_size = Some 50\<rparr>,
         \<lparr>item_path = ''d.md'', item_type = ''blob'', item_size = Some 5000\<rparr>]"
    by code_simp
  have f: "selectFiles (route_limits\<lparr>maxTotalSize := 100\<rparr>)
        [\<lparr>item_path = ''a.py'', item_type = ''blob'', item_size = Some 50\<rparr>,
         \<lparr>item_path = ''d.md'', item_type = ''blob'', item_size = Some 5000\<rparr>]
      = [\<lparr>item_path = ''a.py'', item_type = ''blob'', item_size = Some 50\<rparr>]"
    by code_simp
  show ?thesis
    by (rule conjI [OF a conjI [OF b conjI [OF c conjI [OF w conjI [OF d conjI [OF e f]]]]]])
qed

theorem selector_sorts_then_walks_witness:
  "0 \<le> maxTotalSize (route_limits\<lparr>maxTotalSize := 100\<rparr>)
   \<and> (length (selectFiles (route_limits\<lparr>maxTotalSize := 100\<rparr>)
                [\<lparr>item_path = ''d.md'', item_type = ''blob'', item_size = Some 5000\<rparr>,
                 \<lparr>item_path = ''a.py'', item_type = ''blob'', item_size = Some 50\<rparr>])
        \<le> maxFiles (route_limits\<lparr>maxTotalSize := 100\<rparr>)
      \<and> sum_list (map size_or_0
            (selectFiles (route_limits\<lparr>maxTotalSize := 100\<rparr>)
               [\<lparr>item_path = ''d.md'', item_type = ''blob'', item_size = Some 5000\<rparr>,
                \<lparr>item_path = ''a.py'', item_type = ''blob'', item_size = Some 50\<rparr>]))
        \<le> maxTotalSize (route_limits\<lparr>maxTotalSize := 100\<rparr>))
   \<and> selectFiles (route_limits\<lparr>maxTotalSize := 100\<rparr>)
        [\<lparr>item_path = ''d.md'', item_type = ''blob'', item_size = Some 5000\<rparr>,
         \<lparr>item_path = ''a.py'', item_type = ''blob'', item_size = Some 50\<rparr>]
      = [\<lparr>item_path = ''a.py'', item_type = ''blob'', item_size = Some 50\<rparr>]"
proof -
  have h: "0 \<le> maxTotalSize (route_limits\<lparr>maxTotalSize := 100\<rparr>)"
    by code_simp
  have r: "selectFiles (route_limits\<lparr>maxTotalSize := 100\<rparr>)
        [\<lparr>item_path = ''d.md'', item_type = ''blob'', item_size = Some 5000\<rparr>,
         \<lparr>item_path = ''a.py'', item_type = ''blob'', item_size = Some 50\<rparr>]
      = [\<lparr>item_path = ''a.py'', item_type = ''blob'', item_size = Some 50\<rparr>]"
    by code_simp
  note w = selector_sorts_then_walks
    [THEN conjunct2, THEN conjunct2, THEN conjunct2, THEN conjunct1, THEN mp, OF h]
  show ?thesis
    by (rule conjI [OF h conjI [OF w r]])
qed


section \<open>Facts about the string operations\<close>

lemma split_chr_not_Nil: "split_chr c s \<noteq> []"
  by (induction s) (auto split: list.splits)

lemma split_chr_no_sep: "c \<notin> set a \<Longrightarrow> split_chr c a = [a]"
  by (induction a) auto

lemma split_chr_append_sep:
  "c \<notin> set a \<Longrightarrow> split_chr c (a @ c # b) = a # split_chr c b"
  by (induction a) (auto simp: split_chr_not_Nil split: list.splits)

lemma endsWith_suffix: "endsWith s suf = suffix suf s"
proof
  assume "endsWith s suf"
  then have "s = take (length s - length suf) s @ suf"
    by (metis append_take_drop_id endsWith_def)
  then show "suffix suf s" by (metis suffixI)
next
  assume "suffix suf s"
  then obtain p where "s = p @ suf" by (auto simp: suffix_def)
  then show "endsWith s suf" by (simp add: endsWith_def)
qed

lemma strip_suffix_append: "strip_suffix suf (t @ suf) = t"
  by (simp add: strip_suffix_def endsWith_def)

lemma strip_suffix_absent: "\<not> endsWith s suf \<Longrightarrow> strip_suffix suf s = s"
  by (simp add: strip_suffix_def)

lemma trim_ends: "trim s = [] \<or> (\<not> is_space (hd (trim s)) \<and> \<not> is_space (last (trim s)))"
proof (cases "trim s = []")
  case True
  then show ?thesis by simp
next
  case False
  let ?a = "dropWhile is_space s"
  let ?b = "dropWhile is_space (rev ?a)"
  have t: "trim s = rev ?b" by (simp add: trim_def)
  have b: "?b \<noteq> []" using False t by simp
  have a: "?a \<noteq> []"
  proof
    assume e: "?a = []"
    have "?b = []" unfolding e by simp
    with b show False by simp
  qed
  have "\<not> is_space (hd ?b)" using b by (rule hd_dropWhile)
  then have l: "\<not> is_space (last (trim s))" using b by (simp add: t last_rev)
  have "rev ?a = takeWhile is_space (rev ?a) @ ?b" by simp
  then have "?a = rev ?b @ rev (takeWhile is_space (rev ?a))"
    by (metis rev_append rev_rev_ident)
  then have "hd ?a = hd (rev ?b)" using b by (metis hd_append2 rev_is_Nil_conv)
  moreover have "\<not> is_space (hd ?a)" using a by (rule hd_dropWhile)
  ultimately show ?thesis using l t by simp
qed

lemma trim_clean:
  "s = [] \<or> (\<not> is_space (hd s) \<and> \<not> is_space (last s)) \<Longrightarrow> trim s = s"
proof (cases "s = []")
  case True
  then show ?thesis by (simp add: trim_def)
next
  case False
  assume "s = [] \<or> (\<not> is_space (hd s) \<and> \<not> is_space (last s))"
  with False have h: "\<not> is_space (hd s)" and l: "\<not> is_space (last s)" by auto
  have 1: "dropWhile is_space s = s" using h by (simp add: dropWhile_eq_self_iff)
  have 2: "dropWhile is_space (rev s) = rev s"
    using l by (simp add: dropWhile_eq_self_iff hd_rev)
  show ?thesis by (simp add: trim_def 1 2)
qed

lemma trim_idem: "trim (trim s) = trim s"
  by (rule trim_clean) (rule trim_ends)

lemma trim_append_word:
  assumes "trim t = t" "w \<noteq> []" "\<not> is_space (hd w)" "\<not> is_space (last w)"
  shows "trim (t @ w) = t @ w"
proof (rule trim_clean)
  have "t = [] \<or> \<not> is_space (hd t)" using trim_ends [of t] assms(1) by auto
  then have "\<not> is_space (hd (t @ w))" using assms(3) by (cases t) auto
  moreover have "\<not> is_space (last (t @ w))" using assms(2,4) by simp
  ultimately show "t @ w = [] \<or> (\<not> is_space (hd (t @ w)) \<and> \<not> is_space (last (t @ w)))"
    by simp
qed


section \<open>Cleaning the locator before it is matched\<close>

lemma trim_pad_left:
  assumes "list_all is_space a"
  shows "trim (a @ s) = trim s"
  using assms by (simp add: trim_def list_all_iff)

lemma trim_pad_right:
  assumes "list_all is_space b"
  shows "trim (s @ b) = trim s"
proof (cases "\<exists>x \<in> set s. \<not> is_space x")
  case True
  then obtain x where x: "x \<in> set s" "\<not> is_space x" by blast
  have 1: "dropWhile is_space (s @ b) = dropWhile is_space s @ b"
    using x by (rule dropWhile_append1)
  have 2: "dropWhile is_space (rev b @ rev (dropWhile is_space s))
           = dropWhile is_space (rev (dropWhile is_space s))"
    using assms by (intro dropWhile_append2) (simp add: list_all_iff)
  show ?thesis
    by (simp only: trim_def 1 rev_append 2)
next
  case False
  then have 1: "dropWhile is_space s = []" by simp
  have 2: "dropWhile is_space (s @ b) = []"
    using False assms by (simp add: list_all_iff)
  show ?thesis by (simp only: trim_def 1 2)
qed

lemma cleanUrl_pad:
  assumes "list_all is_space a" "list_all is_space b"
  shows "cleanUrl (a @ url @ b) = cleanUrl url"
  using trim_pad_left [OF assms(1), of "url @ b"] trim_pad_right [OF assms(2), of url]
  by (simp add: cleanUrl_def)

lemma trim_git: "trim t = t \<Longrightarrow> trim (t @ ''.git'') = t @ ''.git''"
  by (rule trim_append_word) (simp_all add: is_space_def)

lemma trim_slash: "trim t = t \<Longrightarrow> trim (t @ ''/'') = t @ ''/''"
  by (rule trim_append_word) (simp_all add: is_space_def)

lemma not_git_after_slash: "\<not> endsWith (t @ ''/'') ''.git''"
  by (simp add: endsWith_suffix suffix_def)

lemma not_slash_after_git: "\<not> endsWith (t @ ''.git'') ''/''"
  by (simp add: endsWith_suffix suffix_def)

lemma cleanUrl_one_git:
  assumes "trim t = t" "\<not> endsWith t ''/''"
  shows "cleanUrl (t @ ''.git'') = t"
  using assms by (simp add: cleanUrl_def trim_git strip_suffix_append strip_suffix_absent)

lemma cleanUrl_one_slash:
  assumes "trim t = t"
  shows "cleanUrl (t @ ''/'') = t"
  by (simp add: cleanUrl_def trim_slash [OF assms] strip_suffix_absent [OF not_git_after_slash]
      strip_suffix_append)

lemma cleanUrl_git_then_slash:
  assumes "trim t = t"
  shows "cleanUrl (t @ ''/'' @ ''.git'') = t"
proof -
  have "trim ((t @ ''/'') @ ''.git'') = (t @ ''/'') @ ''.git''"
    by (intro trim_git trim_slash assms)
  then have "cleanUrl ((t @ ''/'') @ ''.git'') = strip_suffix ''/'' (t @ ''/'')"
    by (simp only: cleanUrl_def strip_suffix_append)
  then show ?thesis by (simp add: strip_suffix_append)
qed

lemma cleanUrl_nothing:
  assumes "trim t = t" "\<not> endsWith t ''.git''" "\<not> endsWith t ''/''"
  shows "cleanUrl t = t"
  using assms by (simp add: cleanUrl_def strip_suffix_absent)

lemma cleanUrl_git:
  assumes "trim t = t" "\<not> endsWith t ''.git''"
  shows "cleanUrl (t @ ''.git'') = cleanUrl t"
  using assms by (simp add: cleanUrl_def trim_git strip_suffix_append strip_suffix_absent)

lemma cleanUrl_slash:
  assumes "trim t = t" "\<not> endsWith t ''.git''" "\<not> endsWith t ''/''"
  shows "cleanUrl (t @ ''/'') = cleanUrl t"
  using cleanUrl_one_slash [OF assms(1)] cleanUrl_nothing [OF assms] by simp

lemma cleanUrl_trim: "cleanUrl (trim url) = cleanUrl url"
  by (simp add: cleanUrl_def trim_idem)

lemma parse_cong: "cleanUrl a = cleanUrl b \<Longrightarrow> parseGitHubUrl U a = parseGitHubUrl U b"
  by (simp add: parseGitHubUrl_def)

lemmas parse_eval = parseGitHubUrl_def cleanUrl_def strip_suffix_def endsWith_def trim_def
  is_space_def matches_short_def is_repo_chr_def

text \<open>
  C9. The parser reads the locator only through its cleaned form, and the cleaned form
  is the input without the white space around it (tab, line feed, vertical tab, form feed,
  carriage return, space, no-break space; other characters stay), then without one
  trailing \<^verbatim>\<open>.git\<close>, then without one trailing slash. A text is trimmed when it is empty
  or neither begins nor ends with one of these characters. On a trimmed text \<open>t\<close>: appending
  \<^verbatim>\<open>.git\<close> is undone when \<open>t\<close> does not end in a slash, also when \<open>t\<close> itself ends in
  \<^verbatim>\<open>.git\<close>, so only one is removed; appending a slash is undone, also when \<open>t\<close> itself ends
  in a slash, so only one is removed, and a \<^verbatim>\<open>.git\<close> before that slash stays; appending
  \<^verbatim>\<open>/.git\<close> is undone, the suffix going first and the slash second; and a text that ends
  in neither is left as it is. So \<^verbatim>\<open>https://github.com/owner/repo.git\<close> and \<^verbatim>\<open>owner/repo/\<close>
  parse as \<^verbatim>\<open>https://github.com/owner/repo\<close> and \<^verbatim>\<open>owner/repo\<close> do, with or without blanks
  around them, while \<^verbatim>\<open>owner/repo//\<close> is cleaned to \<^verbatim>\<open>owner/repo/\<close>, which is no shorthand.
\<close>

theorem parser_strips_git_suffix_and_slash:
  "(cleanUrl a = cleanUrl b \<longrightarrow> parseGitHubUrl U a = parseGitHubUrl U b)
   \<and> (list_all is_space pre \<and> list_all is_space post
      \<longrightarrow> cleanUrl (pre @ url @ post) = cleanUrl url
          \<and> parseGitHubUrl U (pre @ url @ post) = parseGitHubUrl U url)
   \<and> (trim t = t \<and> \<not> endsWith t ''/'' \<longrightarrow> cleanUrl (t @ ''.git'') = t)
   \<and> (trim t = t \<longrightarrow> cleanUrl (t @ ''/'') = t)
   \<and> (trim t = t \<longrightarrow> cleanUrl (t @ ''/'' @ ''.git'') = t)
   \<and> (trim t = t \<and> \<not> endsWith t ''.git'' \<and> \<not> endsWith t ''/'' \<longrightarrow> cleanUrl t = t)
   \<and> (trim t = t \<and> \<not> endsWith t ''.git''
      \<longrightarrow> parseGitHubUrl U (t @ ''.git'') = parseGitHubUrl U t)
   \<and> (trim t = t \<and> \<not> endsWith t ''.git'' \<and> \<not> endsWith t ''/''
      \<longrightarrow> parseGitHubUrl U (t @ ''/'') = parseGitHubUrl U t)
   \<and> parseGitHubUrl U (trim url) = parseGitHubUrl U url
   \<and> parseGitHubUrl U ''https://github.com/owner/repo.git''
       = parseGitHubUrl U ''https://github.com/owner/repo''
   \<and> parseGitHubUrl U ''owner/repo/'' = parseGitHubUrl U ''owner/repo''
   \<and> parseGitHubUrl U ''owner/repo'' = Some \<lparr>owner = ''owner'', repo = ''repo'', branch = None\<rparr>
   \<and> parseGitHubUrl U ''owner/repo.git.git''
       = Some \<lparr>owner = ''owner'', repo = ''repo.git'', branch = None\<rparr>
   \<and> parseGitHubUrl U ([CHR 0xA0, CHR 0x09] @ '' owner/repo.git'' @ [CHR 0x0A, CHR 0x0D, CHR 0x20])
       = Some \<lparr>owner = ''owner'', repo = ''repo'', branch = None\<rparr>
   \<and> cleanUrl ([CHR 0x0B, CHR 0x0C] @ ''owner/repo/'' @ [CHR 0xA0]) = ''owner/repo''
   \<and> cleanUrl ([CHR 0x85] @ ''owner/repo'' @ [CHR 0x1F]) = [CHR 0x85] @ ''owner/repo'' @ [CHR 0x1F]
   \<and> cleanUrl ''owner/repo//'' = ''owner/repo/''
   \<and> cleanUrl ''owner/repo.git/'' = ''owner/repo.git''
   \<and> (trim t = t) = (t = [] \<or> (\<not> is_space (hd t) \<and> \<not> is_space (last t)))
   \<and> (U ''owner/repo/'' = None \<longrightarrow> parseGitHubUrl U ''owner/repo//'' = None)"
proof -
  have p: "cleanUrl a = cleanUrl b \<longrightarrow> parseGitHubUrl U a = parseGitHubUrl U b"
    using parse_cong by blast
  have w: "list_all is_space pre \<and> list_all is_space post
      \<longrightarrow> cleanUrl (pre @ url @ post) = cleanUrl url
          \<and> parseGitHubUrl U (pre @ url @ post) = parseGitHubUrl U url"
    using cleanUrl_pad [of pre post url] parse_cong [of "pre @ url @ post" url U] by blast
  have g1: "trim t = t \<and> \<not> endsWith t ''/'' \<longrightarrow> cleanUrl (t @ ''.git'') = t"
    using cleanUrl_one_git by blast
  have s1: "trim t = t \<longrightarrow> cleanUrl (t @ ''/'') = t"
    using cleanUrl_one_slash by blast
  have o: "trim t = t \<longrightarrow> cleanUrl (t @ ''/'' @ ''.git'') = t"
    using cleanUrl_git_then_slash by blast
  have n: "trim t = t \<and> \<not> endsWith t ''.git'' \<and> \<not> endsWith t ''/'' \<longrightarrow> cleanUrl t = t"
    using cleanUrl_nothing by blast
  have a: "trim t = t \<and> \<not> endsWith t ''.git''
      \<longrightarrow> parseGitHubUrl U (t @ ''.git'') = parseGitHubUrl U t"
    by (auto intro: parse_cong cleanUrl_git)
  have b: "trim t = t \<and> \<not> endsWith t ''.git'' \<and> \<not> endsWith t ''/''
      \<longrightarrow> parseGitHubUrl U (t @ ''/'') = parseGitHubUrl U t"
    by (auto intro: parse_cong cleanUrl_slash)
  have c: "parseGitHubUrl U (trim url) = parseGitHubUrl U url"
    by (rule parse_cong) (rule cleanUrl_trim)
  have d: "parseGitHubUrl U ''https://github.com/owner/repo.git''
       = parseGitHubUrl U ''https://github.com/owner/repo''"
    by (rule parse_cong) (simp add: cleanUrl_def strip_suffix_def endsWith_def trim_def is_space_def)
  have e: "parseGitHubUrl U ''owner/repo/'' = parseGitHubUrl U ''owner/repo''"
    by (rule parse_cong) (simp add: cleanUrl_def strip_suffix_def endsWith_def trim_def is_space_def)
  have f: "parseGitHubUrl U ''owner/repo'' = Some \<lparr>owner = ''owner'', repo = ''repo'', branch = None\<rparr>"
    by (simp add: parse_eval)
  have g: "parseGitHubUrl U ''owner/repo.git.git''
       = Some \<lparr>owner = ''owner'', repo = ''repo.git'', branch = None\<rparr>"
    by (simp add: parse_eval)
  have i1: "parseGitHubUrl U ([CHR 0xA0, CHR 0x09] @ '' owner/repo.git'' @ [CHR 0x0A, CHR 0x0D, CHR 0x20])
       = Some \<lparr>owner = ''owner'', repo = ''repo'', branch = None\<rparr>"
    by (simp add: parse_eval)
  have i2: "cleanUrl ([CHR 0x0B, CHR 0x0C] @ ''owner/repo/'' @ [CHR 0xA0]) = ''owner/repo''"
    by code_simp
  have i3: "cleanUrl ([CHR 0x85] @ ''owner/repo'' @ [CHR 0x1F])
            = [CHR 0x85] @ ''owner/repo'' @ [CHR 0x1F]"
    by code_simp
  have i4: "cleanUrl ''owner/repo//'' = ''owner/repo/''"
    by code_simp
  have i5: "cleanUrl ''owner/repo.git/'' = ''owner/repo.git''"
    by code_simp
  have tc: "(trim t = t) = (t = [] \<or> (\<not> is_space (hd t) \<and> \<not> is_space (last t)))"
  proof
    assume "trim t = t"
    then show "t = [] \<or> (\<not> is_space (hd t) \<and> \<not> is_space (last t))"
      using trim_ends [of t] by simp
  next
    assume "t = [] \<or> (\<not> is_space (hd t) \<and> \<not> is_space (last t))"
    then show "trim t = t" by (rule trim_clean)
  qed
  have i6: "U ''owner/repo/'' = None \<longrightarrow> parseGitHubUrl U ''owner/repo//'' = None"
  proof
    assume u: "U ''owner/repo/'' = None"
    have m: "\<not> matches_short ''owner/repo/''" by code_simp
    show "parseGitHubUrl U ''owner/repo//'' = None"
      unfolding parseGitHubUrl_def Let_def i4 using m u by simp
  qed
  show ?thesis
    by (rule conjI [OF p conjI [OF w conjI [OF g1 conjI [OF s1 conjI [OF o conjI [OF n
          conjI [OF a conjI [OF b conjI [OF c conjI [OF d conjI [OF e conjI [OF f conjI [OF g
          conjI [OF i1 conjI [OF i2 conjI [OF i3 conjI [OF i4 conjI [OF i5 conjI [OF tc i6]]]]]]]]]]]]]]]]]]])
qed

theorem parser_strips_git_suffix_and_slash_witness:
  "(list_all is_space [CHR 0xA0, CHR 0x09] \<and> list_all is_space [CHR 0x0A, CHR 0x20])
   \<and> (cleanUrl ([CHR 0xA0, CHR 0x09] @ ''https://github.com/owner/repo.git/'' @ [CHR 0x0A, CHR 0x20])
        = cleanUrl ''https://github.com/owner/repo.git/''
      \<and> parseGitHubUrl simple_URL
          ([CHR 0xA0, CHR 0x09] @ ''https://github.com/owner/repo.git/'' @ [CHR 0x0A, CHR 0x20])
        = parseGitHubUrl simple_URL ''https://github.com/owner/repo.git/'')
   \<and> parseGitHubUrl simple_URL ''https://github.com/owner/repo.git/''
       = Some \<lparr>owner = ''owner'', repo = ''repo.git'', branch = None\<rparr>
   \<and> (trim ''https://github.com/owner/repo'' = ''https://github.com/owner/repo''
      \<and> \<not> endsWith ''https://github.com/owner/repo'' ''.git''
      \<and> \<not> endsWith ''https://github.com/owner/repo'' ''/'')
   \<and> parseGitHubUrl simple_URL (''https://github.com/owner/repo'' @ ''/'')
       = parseGitHubUrl simple_URL ''https://github.com/owner/repo''
   \<and> parseGitHubUrl simple_URL ''https://github.com/owner/repo''
       = Some \<lparr>owner = ''owner'', repo = ''repo'', branch = None\<rparr>
   \<and> (trim ''owner/repo/'' = ''owner/repo/'')
   \<and> cleanUrl (''owner/repo/'' @ ''/'') = ''owner/repo/''
   \<and> simple_URL ''owner/repo/'' = None
   \<and> parseGitHubUrl simple_URL ''owner/repo//'' = None"
proof -
  have h1: "list_all is_space [CHR 0xA0, CHR 0x09] \<and> list_all is_space [CHR 0x0A, CHR 0x20]"
    by code_simp
  have h2: "trim ''https://github.com/owner/repo'' = ''https://github.com/owner/repo''
      \<and> \<not> endsWith ''https://github.com/owner/repo'' ''.git''
      \<and> \<not> endsWith ''https://github.com/owner/repo'' ''/''"
    by code_simp
  have h3: "trim ''owner/repo/'' = ''owner/repo/''"
    by code_simp
  have h4: "simple_URL ''owner/repo/'' = None"
    by code_simp
  have e1: "parseGitHubUrl simple_URL ''https://github.com/owner/repo.git/''
       = Some \<lparr>owner = ''owner'', repo = ''repo.git'', branch = None\<rparr>"
    by code_simp
  have e2: "parseGitHubUrl simple_URL ''https://github.com/owner/repo''
       = Some \<lparr>owner = ''owner'', repo = ''repo'', branch = None\<rparr>"
    by code_simp
  note c1 = parser_strips_git_suffix_and_slash
    [where U = simple_URL, THEN conjunct2, THEN conjunct1, THEN mp, OF h1]
  note c2 = parser_strips_git_suffix_and_slash
    [where U = simple_URL,
     THEN conjunct2, THEN conjunct2, THEN conjunct2, THEN conjunct2, THEN conjunct2,
     THEN conjunct2, THEN conjunct2, THEN conjunct1, THEN mp, OF h2]
  note c3 = parser_strips_git_suffix_and_slash
    [THEN conjunct2, THEN conjunct2, THEN conjunct2, THEN conjunct1, THEN mp, OF h3]
  note c4 = parser_strips_git_suffix_and_slash
    [where U = simple_URL,
     THEN conjunct2, THEN conjunct2, THEN conjunct2, THEN conjunct2, THEN conjunct2,
     THEN conjunct2, THEN conjunct2, THEN conjunct2, THEN conjunct2, THEN conjunct2,
     THEN conjunct2, THEN conjunct2, THEN conjunct2, THEN conjunct2, THEN conjunct2,
     THEN conjunct2, THEN conjunct2, THEN conjunct2, THEN conjunct2, THEN mp, OF h4]
  show ?thesis
    by (rule conjI [OF h1 conjI [OF c1 conjI [OF e1 conjI [OF h2 conjI [OF c2 conjI [OF e2
          conjI [OF h3 conjI [OF c3 conjI [OF h4 c4]]]]]]]]])
qed

section \<open>The three locator forms\<close>

lemma is_repo_chr_plain: "is_repo_chr c \<Longrightarrow> \<not> is_space c \<and> c \<noteq> CHR ''/''"
  by (auto simp: is_repo_chr_def is_space_def)

lemma list_all_repo_no_slash: "list_all is_repo_chr w \<Longrightarrow> CHR ''/'' \<notin> set w"
  using is_repo_chr_plain by (auto simp: list_all_iff)

lemma cleanUrl_short:
  assumes "ow \<noteq> []" "rp \<noteq> []" "list_all is_repo_chr ow" "list_all is_repo_chr rp"
    "\<not> endsWith rp ''.git''"
  shows "cleanUrl (ow @ CHR ''/'' # rp) = ow @ CHR ''/'' # rp"
proof -
  let ?s = "ow @ CHR ''/'' # rp"
  have "is_repo_chr (hd ow)" using assms(1,3) by (cases ow) auto
  then have h: "\<not> is_space (hd ?s)" using assms(1) is_repo_chr_plain by simp
  have "is_repo_chr (last rp)" using assms(2,4) by (simp add: list_all_iff)
  then have l: "\<not> is_space (last ?s) \<and> last ?s \<noteq> CHR ''/''"
    using assms(2) is_repo_chr_plain by simp
  have t: "trim ?s = ?s" using h l by (intro trim_clean) simp
  have "\<not> suffix ''.git'' (CHR ''/'' # rp)"
    using assms(5) by (simp add: suffix_Cons endsWith_suffix)
  moreover have "\<not> (\<exists>xs'. ''.git'' = xs' @ CHR ''/'' # rp)"
  proof
    assume "\<exists>xs'. ''.git'' = xs' @ CHR ''/'' # rp"
    then obtain xs' where "''.git'' = xs' @ CHR ''/'' # rp" ..
    then have "CHR ''/'' \<in> set ''.git''" by (metis in_set_conv_decomp)
    then show False by simp
  qed
  ultimately have g: "\<not> endsWith ?s ''.git''"
    by (simp add: endsWith_suffix suffix_append)
  have "\<not> suffix ''/'' ?s"
  proof
    assume "suffix ''/'' ?s"
    then obtain p where "?s = p @ ''/''" by (auto simp: suffix_def)
    then have "last ?s = CHR ''/''" by (metis last_snoc)
    with l show False by simp
  qed
  then have sl: "\<not> endsWith ?s ''/''" by (simp add: endsWith_suffix)
  show ?thesis
    by (simp only: cleanUrl_def t strip_suffix_absent [OF g] strip_suffix_absent [OF sl])
qed

lemma parse_short:
  assumes "ow \<noteq> []" "rp \<noteq> []" "list_all is_repo_chr ow" "list_all is_repo_chr rp"
    "\<not> endsWith rp ''.git''"
  shows "parseGitHubUrl U (ow @ ''/'' @ rp) = Some \<lparr>owner = ow, repo = rp, branch = None\<rparr>"
proof -
  have sp: "split_chr CHR ''/'' (ow @ CHR ''/'' # rp) = [ow, rp]"
    using list_all_repo_no_slash [OF assms(3)] list_all_repo_no_slash [OF assms(4)]
    by (simp add: split_chr_append_sep split_chr_no_sep)
  show ?thesis
    using assms(1-4)
    by (simp add: parseGitHubUrl_def cleanUrl_short [OF assms] matches_short_def sp Let_def)
qed

lemma parts_repo:
  assumes "ow \<noteq> []" "rp \<noteq> []" "CHR ''/'' \<notin> set ow" "CHR ''/'' \<notin> set rp"
  shows "filter (\<lambda>p. p \<noteq> []) (split_chr CHR ''/'' (CHR ''/'' # ow @ CHR ''/'' # rp)) = [ow, rp]"
  using assms by (simp add: split_chr_append_sep split_chr_no_sep)

lemma parts_tree:
  assumes "ow \<noteq> []" "rp \<noteq> []" "b \<noteq> []" "CHR ''/'' \<notin> set ow" "CHR ''/'' \<notin> set rp"
    "CHR ''/'' \<notin> set b"
  shows "filter (\<lambda>p. p \<noteq> []) (split_chr CHR ''/'' (''/'' @ ow @ ''/'' @ rp @ ''/tree/'' @ b))
         = [ow, rp, ''tree'', b]"
  using assms by (simp add: split_chr_append_sep split_chr_no_sep)

lemma parse_url_parts:
  assumes "\<not> matches_short (cleanUrl url)" "U (cleanUrl url) = Some u"
    "hostname u = ''github.com''"
    "filter (\<lambda>p. p \<noteq> []) (split_chr CHR ''/'' (pathname u)) = ow # rp # oth"
  shows "parseGitHubUrl U url
         = Some \<lparr>owner = ow, repo = rp,
                  branch = (case oth of
                              t # b # _ \<Rightarrow> if t = ''tree'' then Some b else None
                            | _ \<Rightarrow> None)\<rparr>"
proof -
  have "set (ow # rp # oth) = {p \<in> set (split_chr CHR ''/'' (pathname u)). p \<noteq> []}"
    unfolding assms(4) [symmetric] by simp
  then have ne: "\<forall>p \<in> set (ow # rp # oth). p \<noteq> []" by blast
  show ?thesis
  proof (cases oth)
    case Nil
    then show ?thesis
      using assms by (simp add: parseGitHubUrl_def Let_def del: split_chr.simps)
  next
    case (Cons t oth')
    show ?thesis
    proof (cases oth')
      case Nil
      then show ?thesis
        using assms Cons by (simp add: parseGitHubUrl_def Let_def del: split_chr.simps)
    next
      case (Cons b oth'')
      then show ?thesis
        using assms \<open>oth = t # oth'\<close> ne
        by (simp add: parseGitHubUrl_def Let_def del: split_chr.simps)
    qed
  qed
qed

lemma parse_url_repo:
  assumes "\<not> matches_short (cleanUrl url)"
    "U (cleanUrl url) = Some \<lparr>hostname = ''github.com'', pathname = ''/'' @ ow @ ''/'' @ rp\<rparr>"
    "ow \<noteq> []" "rp \<noteq> []" "CHR ''/'' \<notin> set ow" "CHR ''/'' \<notin> set rp"
  shows "parseGitHubUrl U url = Some \<lparr>owner = ow, repo = rp, branch = None\<rparr>"
proof -
  let ?u = "\<lparr>hostname = ''github.com'', pathname = ''/'' @ ow @ ''/'' @ rp\<rparr>"
  have "filter (\<lambda>p. p \<noteq> []) (split_chr CHR ''/'' (pathname ?u)) = ow # rp # []"
    using parts_repo [OF assms(3-6)] by simp
  from parse_url_parts [of url U ?u ow rp "[]", OF assms(1,2) _ this] show ?thesis by simp
qed

lemma parse_url_tree:
  assumes "\<not> matches_short (cleanUrl url)"
    "U (cleanUrl url)
       = Some \<lparr>hostname = ''github.com'', pathname = ''/'' @ ow @ ''/'' @ rp @ ''/tree/'' @ b\<rparr>"
    "ow \<noteq> []" "rp \<noteq> []" "b \<noteq> []" "CHR ''/'' \<notin> set ow" "CHR ''/'' \<notin> set rp"
    "CHR ''/'' \<notin> set b"
  shows "parseGitHubUrl U url = Some \<lparr>owner = ow, repo = rp, branch = Some b\<rparr>"
proof -
  let ?u = "\<lparr>hostname = ''github.com'', pathname = ''/'' @ ow @ ''/'' @ rp @ ''/tree/'' @ b\<rparr>"
  have "filter (\<lambda>p. p \<noteq> []) (split_chr CHR ''/'' (pathname ?u)) = ow # rp # [''tree'', b]"
    using parts_tree [OF assms(3-8)] by simp
  from parse_url_parts [of url U ?u ow rp "[''tree'', b]", OF assms(1,2) _ this]
  show ?thesis by simp
qed


section \<open>The batch loop fetches every selected file, in order\<close>

text \<open>
  Whatever the order in which the promises of a batch settle, \<^verbatim>\<open>Promise.all\<close> gives their
  values in the order of its input.
\<close>

lemma fold_slots:
  "\<forall>i \<in> set js. i < length vs \<Longrightarrow>
   fold (\<lambda>i vs. vs[i := Some (ps ! i)]) js vs
   = map (\<lambda>k. if k \<in> set js then Some (ps ! k) else vs ! k) [0..<length vs]"
proof (induction js arbitrary: vs)
  case Nil
  show ?case by (simp add: map_nth)
next
  case (Cons j js)
  have "fold (\<lambda>i vs. vs[i := Some (ps ! i)]) (j # js) vs
        = fold (\<lambda>i vs. vs[i := Some (ps ! i)]) js (vs[j := Some (ps ! j)])"
    by simp
  also have "\<dots> = map (\<lambda>k. if k \<in> set js then Some (ps ! k) else vs[j := Some (ps ! j)] ! k)
                     [0..<length (vs[j := Some (ps ! j)])]"
    using Cons.prems by (intro Cons.IH) simp
  also have "\<dots> = map (\<lambda>k. if k \<in> set (j # js) then Some (ps ! k) else vs ! k) [0..<length vs]"
    by (auto simp: nth_list_update)
  finally show ?case .
qed

lemma concat_Some: "concat (map ((\<lambda>v. case v of None \<Rightarrow> [] | Some x \<Rightarrow> [x]) \<circ> Some) ps) = ps"
  by (induction ps) auto

lemma Promise_all_input_order: "Promise_all order promises = promises"
proof -
  let ?n = "length promises"
  let ?js = "filter (\<lambda>i. i < ?n) order @ [0..<?n]"
  have "fold (\<lambda>i vs. vs[i := Some (promises ! i)]) ?js (replicate ?n None)
        = map (\<lambda>k. if k \<in> set ?js then Some (promises ! k) else replicate ?n None ! k)
            [0..<length (replicate ?n None :: 'a option list)]"
    by (rule fold_slots) auto
  also have "\<dots> = map (\<lambda>k. Some (promises ! k)) [0..<?n]"
    by auto
  also have "\<dots> = map Some promises"
    by (simp add: map_nth flip: map_map [unfolded comp_def])
  finally show ?thesis
    by (simp add: Promise_all_def Let_def concat_Some)
qed

lemma concat_options:
  "concat (map ((\<lambda>r. case r of None \<Rightarrow> [] | Some x \<Rightarrow> [x]) \<circ> g) xs) = List.map_filter g xs"
  by (induction xs) (auto split: option.splits)

lemma map_filter_append: "List.map_filter g (xs @ ys) = List.map_filter g xs @ List.map_filter g ys"
  by (simp add: List.map_filter_def)

lemma fetchContents_all:
  "fetchContents sched get filesToFetch i acc
   = (fst acc @ List.map_filter (\<lambda>f. fst (get f)) (drop i filesToFetch),
      snd acc @ concat (map (\<lambda>f. snd (get f)) (drop i filesToFetch)))"
proof (induction sched get filesToFetch i acc rule: fetchContents.induct)
  case (1 sched get fs i results log)
  show ?case
  proof (cases "i < length fs")
    case False
    then show ?thesis by simp
  next
    case True
    let ?batch = "slice fs i (i + BATCH_SIZE)"
    have "drop i fs = ?batch @ drop (i + BATCH_SIZE) fs"
      by (simp add: slice_def add.commute flip: drop_drop)
    then have sp:
      "List.map_filter (\<lambda>f. fst (get f)) (drop i fs)
       = List.map_filter (\<lambda>f. fst (get f)) ?batch
         @ List.map_filter (\<lambda>f. fst (get f)) (drop (i + BATCH_SIZE) fs)"
      "concat (map (\<lambda>f. snd (get f)) (drop i fs))
       = concat (map (\<lambda>f. snd (get f)) ?batch)
         @ concat (map (\<lambda>f. snd (get f)) (drop (i + BATCH_SIZE) fs))"
      by (simp_all flip: map_filter_append map_append concat_append)
    note ih = "1.IH" [OF True refl refl]
    show ?thesis
      using True ih
      by (subst fetchContents.simps)
         (simp add: Let_def Promise_all_input_order concat_options sp del: fetchContents.simps)
  qed
qed


section \<open>The stages of the handler and how they compose\<close>

lemma returned_accepted:
  "accepted_status st \<Longrightarrow> returned P b st = \<lparr>res_status = st, res_body = b\<rparr>"
  by (simp add: returned_def NextResponse_json_def)

lemma returned_refused:
  "\<not> accepted_status st \<Longrightarrow> returned P b st = caught (Error (init_error P st))"
  by (simp add: returned_def NextResponse_json_def)

lemma accepted_status_consts: "accepted_status 200" "accepted_status 400" "accepted_status 404"
  "accepted_status 500"
  by (simp_all add: accepted_status_def)

lemma caught_failure: "res_status (caught e) = 500 \<and> (\<exists>msg. res_body (caught e) = Failure msg)"
  by (simp add: caught_def)

lemma returned_failure:
  "(\<exists>m. res_body (returned P (Failure msg) st) = Failure m)
   \<and> res_status (returned P (Failure msg) st) = (if accepted_status st then st else 500)"
  by (simp add: returned_accepted returned_refused caught_def)

lemma getDefaultBranch_given:
  "b \<noteq> [] \<Longrightarrow> getDefaultBranch P headers ow rp (Some b) = (Inr b, [])"
  by (simp add: getDefaultBranch_def truthy_def)


lemma getDefaultBranch_not_ok:
  "\<not> truthy br \<Longrightarrow> fetch P (repoApiUrl ow rp) headers = Inr repoRes \<Longrightarrow> \<not> ok repoRes
   \<Longrightarrow> \<exists>msg. getDefaultBranch P headers ow rp br
             = (Inl (returned P (Failure msg) (status repoRes)), [repoApiUrl ow rp])"
  by (cases "status repoRes = 404") (auto simp: getDefaultBranch_def)


lemma getDefaultBranch_resolved:
  "\<not> truthy br \<Longrightarrow> fetch P (repoApiUrl ow rp) headers = Inr repoRes \<Longrightarrow> ok repoRes
   \<Longrightarrow> json repoRes = Inr repoData
   \<Longrightarrow> getDefaultBranch P headers ow rp br
       = (Inr (case default_branch repoData of
                 None \<Rightarrow> ''main''
               | Some b \<Rightarrow> if b = [] then ''main'' else b),
          [repoApiUrl ow rp])"
  by (simp add: getDefaultBranch_def)

lemma getDefaultBranch_failure:
  "getDefaultBranch P headers ow rp br = (Inl response, log)
   \<Longrightarrow> (\<exists>msg. res_body response = Failure msg) \<and> res_status response \<noteq> 200"
  using returned_failure [of P _ 404] returned_failure [of P]
  by (auto simp: getDefaultBranch_def caught_def ok_def accepted_status_def
      split: option.splits sum.splits if_splits)

lemma getDefaultBranch_calls:
  "snd (getDefaultBranch P headers ow rp br) = (if truthy br then [] else [repoApiUrl ow rp])"
  by (auto simp: getDefaultBranch_def truthy_def split: option.splits sum.splits)


lemma getFileTree_not_ok:
  "fetch P (treeApiUrl ow rp tb) headers = Inr treeRes \<Longrightarrow> \<not> ok treeRes
   \<Longrightarrow> \<exists>msg. getFileTree P headers ow rp tb
             = (Inl (returned P (Failure msg) (status treeRes)), [treeApiUrl ow rp tb])"
  by (auto simp: getFileTree_def)


lemma getFileTree_listed:
  "fetch P (treeApiUrl ow rp tb) headers = Inr treeRes \<Longrightarrow> ok treeRes
   \<Longrightarrow> json treeRes = Inr treeData
   \<Longrightarrow> getFileTree P headers ow rp tb
       = (Inr (sortBySize (eligibleFiles (case tree treeData of None \<Rightarrow> [] | Some t \<Rightarrow> t))),
          [treeApiUrl ow rp tb])"
  by (simp add: getFileTree_def)

lemma getFileTree_Inr:
  "getFileTree P headers ow rp tb = (Inr allFiles, log2)
   \<Longrightarrow> \<exists>treeRes treeData.
         fetch P (treeApiUrl ow rp tb) headers = Inr treeRes \<and> ok treeRes
         \<and> json treeRes = Inr treeData
         \<and> allFiles
             = sortBySize (eligibleFiles (case tree treeData of None \<Rightarrow> [] | Some t \<Rightarrow> t))
         \<and> log2 = [treeApiUrl ow rp tb]"
  by (auto simp: getFileTree_def split: sum.splits if_splits)

lemma getFileTree_failure:
  "getFileTree P headers ow rp tb = (Inl response, log)
   \<Longrightarrow> (\<exists>msg. res_body response = Failure msg) \<and> res_status response \<noteq> 200"
  using returned_failure [of P]
  by (auto simp: getFileTree_def caught_def ok_def accepted_status_def
      split: sum.splits if_splits)

lemma getFileTree_calls: "snd (getFileTree P headers ow rp tb) = [treeApiUrl ow rp tb]"
  by (auto simp: getFileTree_def split: sum.splits)


lemma POST_no_url:
  "\<not> truthy (repoUrl body)
   \<Longrightarrow> POST P (Inr body)
       = (\<lparr>res_status = 400, res_body = Failure ''repoUrl is required''\<rparr>, [])"
  by (simp add: POST_def returned_accepted accepted_status_consts)

lemma POST_unparsed:
  "repoUrl body = Some url \<Longrightarrow> url \<noteq> [] \<Longrightarrow> parseGitHubUrl (new_URL P) url = None
   \<Longrightarrow> POST P (Inr body)
       = (\<lparr>res_status = 400,
            res_body = Failure ''Invalid GitHub URL. Use format: https://github.com/owner/repo or owner/repo''\<rparr>,
          [])"
  by (simp add: POST_def truthy_def returned_accepted accepted_status_consts)

lemma POST_early_branch:
  "repoUrl body = Some url \<Longrightarrow> url \<noteq> [] \<Longrightarrow> parseGitHubUrl (new_URL P) url = Some parsed
   \<Longrightarrow> getDefaultBranch P (requestHeaders P) (owner parsed) (repo parsed)
         (if truthy (requestedBranch body) then requestedBranch body else branch parsed)
       = (Inl response, log1)
   \<Longrightarrow> POST P (Inr body) = (response, log1)"
  by (simp add: POST_def truthy_def Let_def)

lemma POST_early_tree:
  "repoUrl body = Some url \<Longrightarrow> url \<noteq> [] \<Longrightarrow> parseGitHubUrl (new_URL P) url = Some parsed
   \<Longrightarrow> getDefaultBranch P (requestHeaders P) (owner parsed) (repo parsed)
         (if truthy (requestedBranch body) then requestedBranch body else branch parsed)
       = (Inr targetBranch, log1)
   \<Longrightarrow> getFileTree P (requestHeaders P) (owner parsed) (repo parsed) targetBranch
       = (Inl response, log2)
   \<Longrightarrow> POST P (Inr body) = (response, log1 @ log2)"
  by (simp add: POST_def truthy_def Let_def)

lemma content_requests:
  "concat (map (\<lambda>f. snd (fetchFile P headers ow rp tb f)) fs) = map (contentApiUrl ow rp tb) fs"
  by (induction fs) (simp_all add: fetchFile_def)

lemma POST_success:
  "repoUrl body = Some url \<Longrightarrow> url \<noteq> [] \<Longrightarrow> parseGitHubUrl (new_URL P) url = Some parsed
   \<Longrightarrow> getDefaultBranch P (requestHeaders P) (owner parsed) (repo parsed)
         (if truthy (requestedBranch body) then requestedBranch body else branch parsed)
       = (Inr targetBranch, log1)
   \<Longrightarrow> getFileTree P (requestHeaders P) (owner parsed) (repo parsed) targetBranch
       = (Inr allFiles, log2)
   \<Longrightarrow> POST P (Inr body)
       = (\<lparr>res_status = 200,
            res_body =
              Success
                \<lparr>res_owner = owner parsed,
                 res_repo = repo parsed,
                 res_branch = targetBranch,
                 files =
                   List.map_filter
                     (\<lambda>f. fst (fetchFile P (requestHeaders P) (owner parsed) (repo parsed)
                                  targetBranch f))
                     (collectFiles route_limits allFiles [] 0),
                 totalFiles = int (length allFiles),
                 fetchedFiles =
                   int (length
                     (List.map_filter
                        (\<lambda>f. fst (fetchFile P (requestHeaders P) (owner parsed) (repo parsed)
                                     targetBranch f))
                        (collectFiles route_limits allFiles [] 0))),
                 truncatedFiles =
                   int (length allFiles)
                   - int (length
                       (List.map_filter
                          (\<lambda>f. fst (fetchFile P (requestHeaders P) (owner parsed) (repo parsed)
                                       targetBranch f))
                          (collectFiles route_limits allFiles [] 0))),
                 res_tree = map (\<lambda>f. (item_path f, item_size f)) allFiles\<rparr>\<rparr>,
          log1 @ log2
          @ map (contentApiUrl (owner parsed) (repo parsed) targetBranch)
              (collectFiles route_limits allFiles [] 0))"
  by (simp add: POST_def truthy_def Let_def fetchContents_all content_requests
      returned_accepted accepted_status_consts del: fetchContents.simps)


section \<open>What the parser recognizes\<close>

lemma parse_branch_only_from_tree:
  assumes "parseGitHubUrl U url = Some parsed" "branch parsed = Some b"
  shows "\<exists>u rest. U (cleanUrl url) = Some u
            \<and> filter (\<lambda>p. p \<noteq> []) (split_chr CHR ''/'' (pathname u))
                = owner parsed # repo parsed # ''tree'' # b # rest"
proof (cases "matches_short (cleanUrl url)")
  case True
  then have "parseGitHubUrl U url
             = (case split_chr CHR ''/'' (cleanUrl url) of
                  ow # rp # _ \<Rightarrow> Some \<lparr>owner = ow, repo = rp, branch = None\<rparr>
                | _ \<Rightarrow> None)"
    by (simp add: parseGitHubUrl_def Let_def del: split_chr.simps)
  with assms(1) have "branch parsed = None"
    by (auto split: list.splits simp del: split_chr.simps)
  with assms(2) show ?thesis by simp
next
  case False
  then have eq: "parseGitHubUrl U url
             = (case U (cleanUrl url) of
                  None \<Rightarrow> None
                | Some urlObj \<Rightarrow>
                    if hostname urlObj \<noteq> ''github.com'' then None
                    else
                      let parts = filter (\<lambda>p. p \<noteq> []) (split_chr CHR ''/'' (pathname urlObj)) in
                      if length parts < 2 then None
                      else Some \<lparr>owner = parts ! 0, repo = parts ! 1,
                                 branch = (if 3 < length parts \<and> parts ! 2 = ''tree''
                                             \<and> parts ! 3 \<noteq> []
                                           then Some (parts ! 3) else None)\<rparr>)"
    by (simp add: parseGitHubUrl_def Let_def del: split_chr.simps)
  from assms(1) obtain u where u: "U (cleanUrl url) = Some u"
    unfolding eq by (cases "U (cleanUrl url)") simp_all
  define parts where "parts = filter (\<lambda>p. p \<noteq> []) (split_chr CHR ''/'' (pathname u))"
  have p: "parsed = \<lparr>owner = parts ! 0, repo = parts ! 1,
                      branch = (if 3 < length parts \<and> parts ! 2 = ''tree'' \<and> parts ! 3 \<noteq> []
                                then Some (parts ! 3) else None)\<rparr>"
    using assms(1) unfolding eq u
    by (auto simp: Let_def parts_def [symmetric] split: if_splits simp del: split_chr.simps)
  have c: "3 < length parts \<and> parts ! 2 = ''tree'' \<and> parts ! 3 = b"
    using assms(2) unfolding p by (simp split: if_splits)
  obtain x0 r0 where e0: "parts = x0 # r0" using c by (cases parts) auto
  obtain x1 r1 where e1: "r0 = x1 # r1" using c unfolding e0 by (cases r0) auto
  obtain x2 r2 where e2: "r1 = x2 # r2" using c unfolding e0 e1 by (cases r1) auto
  obtain x3 r3 where e3: "r2 = x3 # r3" using c unfolding e0 e1 e2 by (cases r2) auto
  have e: "parts = x0 # x1 # x2 # x3 # r3" by (simp add: e0 e1 e2 e3)
  have "owner parsed = x0" "repo parsed = x1" "x2 = ''tree''" "x3 = b"
    using c unfolding p e by (simp_all add: numeral_3_eq_3 numeral_2_eq_2)
  then have "filter (\<lambda>p. p \<noteq> []) (split_chr CHR ''/'' (pathname u))
             = owner parsed # repo parsed # ''tree'' # b # r3"
    using e unfolding parts_def by simp
  with u show ?thesis by blast
qed

text \<open>
  C4. The parser recognizes the three locator forms, over any \<open>URL\<close> constructor \<open>U\<close>:
  the shorthand \<open>owner/name\<close> (both parts non-empty runs of the class characters of line 74,
  the name not ending in \<^verbatim>\<open>.git\<close>, which cleaning would remove), a web address whose host is
  \<^verbatim>\<open>github.com\<close> and whose path is \<open>/owner/name\<close>, and one whose path is
  \<open>/owner/name/tree/branch\<close>. Owner and name are returned as written; a branch is returned
  only in the third form. A non-empty branch in the request takes precedence over the one
  in the locator: the whole run is then made on the requested branch, whatever branch the
  locator names, which means the tree listing, every content request and the branch
  reported in the response; and a request without a branch runs as the request for the
  branch of the locator does. \<^verbatim>\<open>octocat/Hello-World\<close> parses to owner \<^verbatim>\<open>octocat\<close>, name
  \<^verbatim>\<open>Hello-World\<close> and no branch; \<^verbatim>\<open>https://github.com/acme/widgets/tree/dev\<close>, which the platform splits into
  the host \<^verbatim>\<open>github.com\<close> and the path \<^verbatim>\<open>/acme/widgets/tree/dev\<close>, parses to owner \<^verbatim>\<open>acme\<close>,
  name \<^verbatim>\<open>widgets\<close> and branch \<^verbatim>\<open>dev\<close>.
\<close>

theorem parser_recognizes_three_forms:
  "(ow \<noteq> [] \<and> rp \<noteq> [] \<and> list_all is_repo_chr ow \<and> list_all is_repo_chr rp
      \<and> \<not> endsWith rp ''.git''
      \<longrightarrow> parseGitHubUrl U (ow @ ''/'' @ rp) = Some \<lparr>owner = ow, repo = rp, branch = None\<rparr>)
   \<and> (\<not> matches_short (cleanUrl url)
      \<and> U (cleanUrl url) = Some \<lparr>hostname = ''github.com'', pathname = ''/'' @ ow @ ''/'' @ rp\<rparr>
      \<and> ow \<noteq> [] \<and> rp \<noteq> [] \<and> CHR ''/'' \<notin> set ow \<and> CHR ''/'' \<notin> set rp
      \<longrightarrow> parseGitHubUrl U url = Some \<lparr>owner = ow, repo = rp, branch = None\<rparr>)
   \<and> (\<not> matches_short (cleanUrl url)
      \<and> U (cleanUrl url)
          = Some \<lparr>hostname = ''github.com'', pathname = ''/'' @ ow @ ''/'' @ rp @ ''/tree/'' @ b\<rparr>
      \<and> ow \<noteq> [] \<and> rp \<noteq> [] \<and> b \<noteq> []
      \<and> CHR ''/'' \<notin> set ow \<and> CHR ''/'' \<notin> set rp \<and> CHR ''/'' \<notin> set b
      \<longrightarrow> parseGitHubUrl U url = Some \<lparr>owner = ow, repo = rp, branch = Some b\<rparr>)
   \<and> (parseGitHubUrl U url = Some parsed \<and> branch parsed = Some b
      \<longrightarrow> (\<exists>u rest. U (cleanUrl url) = Some u
            \<and> filter (\<lambda>p. p \<noteq> []) (split_chr CHR ''/'' (pathname u))
                = owner parsed # repo parsed # ''tree'' # b # rest))
   \<and> (loc \<noteq> [] \<and> parseGitHubUrl (new_URL P) loc = Some parsed \<and> rb \<noteq> []
      \<longrightarrow> POST P (Inr \<lparr>repoUrl = Some loc, requestedBranch = Some rb\<rparr>)
          = (case getFileTree P (requestHeaders P) (owner parsed) (repo parsed) rb of
               (Inl response, log2) \<Rightarrow> (response, log2)
             | (Inr allFiles, log2) \<Rightarrow>
                 (\<lparr>res_status = 200,
                   res_body =
                     Success
                       \<lparr>res_owner = owner parsed,
                        res_repo = repo parsed,
                        res_branch = rb,
                        files =
                          List.map_filter
                            (\<lambda>f. fst (fetchFile P (requestHeaders P) (owner parsed)
                                         (repo parsed) rb f))
                            (collectFiles route_limits allFiles [] 0),
                        totalFiles = int (length allFiles),
                        fetchedFiles =
                          int (length
                            (List.map_filter
                               (\<lambda>f. fst (fetchFile P (requestHeaders P) (owner parsed)
                                            (repo parsed) rb f))
                               (collectFiles route_limits allFiles [] 0))),
                        truncatedFiles =
                          int (length allFiles)
                          - int (length
                              (List.map_filter
                                 (\<lambda>f. fst (fetchFile P (requestHeaders P) (owner parsed)
                                              (repo parsed) rb f))
                                 (collectFiles route_limits allFiles [] 0))),
                        res_tree = map (\<lambda>f. (item_path f, item_size f)) allFiles\<rparr>\<rparr>,
                  log2 @ map (contentApiUrl (owner parsed) (repo parsed) rb)
                           (collectFiles route_limits allFiles [] 0)))
          \<and> (\<exists>fs. snd (POST P (Inr \<lparr>repoUrl = Some loc, requestedBranch = Some rb\<rparr>))
                    = treeApiUrl (owner parsed) (repo parsed) rb
                      # map (contentApiUrl (owner parsed) (repo parsed) rb) fs)
          \<and> (\<forall>s. res_body (fst (POST P (Inr \<lparr>repoUrl = Some loc, requestedBranch = Some rb\<rparr>)))
                    = Success s
                  \<longrightarrow> res_branch s = rb \<and> res_owner s = owner parsed \<and> res_repo s = repo parsed))
   \<and> (loc \<noteq> [] \<and> parseGitHubUrl (new_URL P) loc = Some parsed \<and> \<not> truthy rq
      \<and> branch parsed = Some b \<and> b \<noteq> []
      \<longrightarrow> POST P (Inr \<lparr>repoUrl = Some loc, requestedBranch = rq\<rparr>)
          = POST P (Inr \<lparr>repoUrl = Some loc, requestedBranch = Some b\<rparr>))
   \<and> parseGitHubUrl U ''octocat/Hello-World''
       = Some \<lparr>owner = ''octocat'', repo = ''Hello-World'', branch = None\<rparr>
   \<and> (U ''https://github.com/acme/widgets/tree/dev''
        = Some \<lparr>hostname = ''github.com'', pathname = ''/acme/widgets/tree/dev''\<rparr>
      \<longrightarrow> parseGitHubUrl U ''https://github.com/acme/widgets/tree/dev''
          = Some \<lparr>owner = ''acme'', repo = ''widgets'', branch = Some ''dev''\<rparr>)"
proof -
  have a: "ow \<noteq> [] \<and> rp \<noteq> [] \<and> list_all is_repo_chr ow \<and> list_all is_repo_chr rp
      \<and> \<not> endsWith rp ''.git''
      \<longrightarrow> parseGitHubUrl U (ow @ ''/'' @ rp) = Some \<lparr>owner = ow, repo = rp, branch = None\<rparr>"
    using parse_short by blast
  have b: "\<not> matches_short (cleanUrl url)
      \<and> U (cleanUrl url) = Some \<lparr>hostname = ''github.com'', pathname = ''/'' @ ow @ ''/'' @ rp\<rparr>
      \<and> ow \<noteq> [] \<and> rp \<noteq> [] \<and> CHR ''/'' \<notin> set ow \<and> CHR ''/'' \<notin> set rp
      \<longrightarrow> parseGitHubUrl U url = Some \<lparr>owner = ow, repo = rp, branch = None\<rparr>"
    using parse_url_repo by blast
  have c: "\<not> matches_short (cleanUrl url)
      \<and> U (cleanUrl url)
          = Some \<lparr>hostname = ''github.com'', pathname = ''/'' @ ow @ ''/'' @ rp @ ''/tree/'' @ b\<rparr>
      \<and> ow \<noteq> [] \<and> rp \<noteq> [] \<and> b \<noteq> []
      \<and> CHR ''/'' \<notin> set ow \<and> CHR ''/'' \<notin> set rp \<and> CHR ''/'' \<notin> set b
      \<longrightarrow> parseGitHubUrl U url = Some \<lparr>owner = ow, repo = rp, branch = Some b\<rparr>"
    using parse_url_tree by blast
  have only: "parseGitHubUrl U url = Some parsed \<and> branch parsed = Some b
      \<longrightarrow> (\<exists>u rest. U (cleanUrl url) = Some u
            \<and> filter (\<lambda>p. p \<noteq> []) (split_chr CHR ''/'' (pathname u))
                = owner parsed # repo parsed # ''tree'' # b # rest)"
    using parse_branch_only_from_tree by blast
  have d: "loc \<noteq> [] \<and> parseGitHubUrl (new_URL P) loc = Some parsed \<and> rb \<noteq> []
      \<longrightarrow> POST P (Inr \<lparr>repoUrl = Some loc, requestedBranch = Some rb\<rparr>)
          = (case getFileTree P (requestHeaders P) (owner parsed) (repo parsed) rb of
               (Inl response, log2) \<Rightarrow> (response, log2)
             | (Inr allFiles, log2) \<Rightarrow>
                 (\<lparr>res_status = 200,
                   res_body =
                     Success
                       \<lparr>res_owner = owner parsed,
                        res_repo = repo parsed,
                        res_branch = rb,
                        files =
                          List.map_filter
                            (\<lambda>f. fst (fetchFile P (requestHeaders P) (owner parsed)
                                         (repo parsed) rb f))
                            (collectFiles route_limits allFiles [] 0),
                        totalFiles = int (length allFiles),
                        fetchedFiles =
                          int (length
                            (List.map_filter
                               (\<lambda>f. fst (fetchFile P (requestHeaders P) (owner parsed)
                                            (repo parsed) rb f))
                               (collectFiles route_limits allFiles [] 0))),
                        truncatedFiles =
                          int (length allFiles)
                          - int (length
                              (List.map_filter
                                 (\<lambda>f. fst (fetchFile P (requestHeaders P) (owner parsed)
                                              (repo parsed) rb f))
                                 (collectFiles route_limits allFiles [] 0))),
                        res_tree = map (\<lambda>f. (item_path f, item_size f)) allFiles\<rparr>\<rparr>,
                  log2 @ map (contentApiUrl (owner parsed) (repo parsed) rb)
                           (collectFiles route_limits allFiles [] 0)))
          \<and> (\<exists>fs. snd (POST P (Inr \<lparr>repoUrl = Some loc, requestedBranch = Some rb\<rparr>))
                    = treeApiUrl (owner parsed) (repo parsed) rb
                      # map (contentApiUrl (owner parsed) (repo parsed) rb) fs)
          \<and> (\<forall>s. res_body (fst (POST P (Inr \<lparr>repoUrl = Some loc, requestedBranch = Some rb\<rparr>)))
                    = Success s
                  \<longrightarrow> res_branch s = rb \<and> res_owner s = owner parsed \<and> res_repo s = repo parsed)"
  proof (intro impI, elim conjE)
    assume h: "loc \<noteq> []" "parseGitHubUrl (new_URL P) loc = Some parsed" "rb \<noteq> []"
    let ?body = "\<lparr>repoUrl = Some loc, requestedBranch = Some rb\<rparr>"
    let ?ow = "owner parsed" and ?rp = "repo parsed"
    have u: "repoUrl ?body = Some loc" by simp
    have g: "getDefaultBranch P (requestHeaders P) ?ow ?rp
               (if truthy (requestedBranch ?body) then requestedBranch ?body else branch parsed)
             = (Inr rb, [])"
      using h(3) by (simp add: truthy_def getDefaultBranch_given)
    obtain r2 log2 where t: "getFileTree P (requestHeaders P) ?ow ?rp rb = (r2, log2)"
      by (cases "getFileTree P (requestHeaders P) ?ow ?rp rb")
    then have l2: "log2 = [treeApiUrl ?ow ?rp rb]"
      using getFileTree_calls [of P "requestHeaders P" ?ow ?rp rb] by simp
    show "POST P (Inr ?body)
          = (case getFileTree P (requestHeaders P) (owner parsed) (repo parsed) rb of
               (Inl response, log2) \<Rightarrow> (response, log2)
             | (Inr allFiles, log2) \<Rightarrow>
                 (\<lparr>res_status = 200,
                   res_body =
                     Success
                       \<lparr>res_owner = owner parsed,
                        res_repo = repo parsed,
                        res_branch = rb,
                        files =
                          List.map_filter
                            (\<lambda>f. fst (fetchFile P (requestHeaders P) (owner parsed)
                                         (repo parsed) rb f))
                            (collectFiles route_limits allFiles [] 0),
                        totalFiles = int (length allFiles),
                        fetchedFiles =
                          int (length
                            (List.map_filter
                               (\<lambda>f. fst (fetchFile P (requestHeaders P) (owner parsed)
                                            (repo parsed) rb f))
                               (collectFiles route_limits allFiles [] 0))),
                        truncatedFiles =
                          int (length allFiles)
                          - int (length
                              (List.map_filter
                                 (\<lambda>f. fst (fetchFile P (requestHeaders P) (owner parsed)
                                              (repo parsed) rb f))
                                 (collectFiles route_limits allFiles [] 0))),
                        res_tree = map (\<lambda>f. (item_path f, item_size f)) allFiles\<rparr>\<rparr>,
                  log2 @ map (contentApiUrl (owner parsed) (repo parsed) rb)
                           (collectFiles route_limits allFiles [] 0)))
          \<and> (\<exists>fs. snd (POST P (Inr ?body))
                    = treeApiUrl (owner parsed) (repo parsed) rb
                      # map (contentApiUrl (owner parsed) (repo parsed) rb) fs)
          \<and> (\<forall>s. res_body (fst (POST P (Inr ?body))) = Success s
                  \<longrightarrow> res_branch s = rb \<and> res_owner s = owner parsed \<and> res_repo s = repo parsed)"
    proof (cases r2)
      case (Inl response)
      have p: "POST P (Inr ?body) = (response, log2)"
        using POST_early_tree [OF u h(1,2) g] t Inl by simp
      have f: "\<exists>msg. res_body response = Failure msg"
        using getFileTree_failure t Inl by blast
      have "snd (POST P (Inr ?body))
            = treeApiUrl ?ow ?rp rb # map (contentApiUrl ?ow ?rp rb) []"
        using p l2 by simp
      then have ex: "\<exists>fs. snd (POST P (Inr ?body))
                          = treeApiUrl ?ow ?rp rb # map (contentApiUrl ?ow ?rp rb) fs"
        by (rule exI)
      show ?thesis
        using f ex unfolding p t Inl by auto
    next
      case (Inr allFiles)
      note p = POST_success [OF u h(1,2) g, of allFiles log2]
      have t': "getFileTree P (requestHeaders P) ?ow ?rp rb = (Inr allFiles, log2)"
        using t Inr by simp
      have "snd (POST P (Inr ?body))
            = treeApiUrl ?ow ?rp rb
              # map (contentApiUrl ?ow ?rp rb) (collectFiles route_limits allFiles [] 0)"
        using p [OF t'] l2 by simp
      then have ex: "\<exists>fs. snd (POST P (Inr ?body))
                          = treeApiUrl ?ow ?rp rb # map (contentApiUrl ?ow ?rp rb) fs"
        by (rule exI)
      show ?thesis
        using ex unfolding p [OF t'] t' by auto
    qed
  qed
  have d': "loc \<noteq> [] \<and> parseGitHubUrl (new_URL P) loc = Some parsed \<and> \<not> truthy rq
      \<and> branch parsed = Some b \<and> b \<noteq> []
      \<longrightarrow> POST P (Inr \<lparr>repoUrl = Some loc, requestedBranch = rq\<rparr>)
          = POST P (Inr \<lparr>repoUrl = Some loc, requestedBranch = Some b\<rparr>)"
    by (simp add: POST_def truthy_def)
  have e: "parseGitHubUrl U ''octocat/Hello-World''
       = Some \<lparr>owner = ''octocat'', repo = ''Hello-World'', branch = None\<rparr>"
    by (simp add: parse_eval)
  have f: "U ''https://github.com/acme/widgets/tree/dev''
        = Some \<lparr>hostname = ''github.com'', pathname = ''/acme/widgets/tree/dev''\<rparr>
      \<longrightarrow> parseGitHubUrl U ''https://github.com/acme/widgets/tree/dev''
          = Some \<lparr>owner = ''acme'', repo = ''widgets'', branch = Some ''dev''\<rparr>"
    by (simp add: parse_eval)
  show ?thesis
    by (rule conjI [OF a conjI [OF b conjI [OF c conjI [OF only conjI [OF d conjI [OF d'
          conjI [OF e f]]]]]]])
qed


theorem parser_recognizes_three_forms_witness:
  "(''octocat'' \<noteq> [] \<and> ''Hello-World'' \<noteq> [] \<and> list_all is_repo_chr ''octocat''
      \<and> list_all is_repo_chr ''Hello-World'' \<and> \<not> endsWith ''Hello-World'' ''.git'')
   \<and> parseGitHubUrl simple_URL (''octocat'' @ ''/'' @ ''Hello-World'')
       = Some \<lparr>owner = ''octocat'', repo = ''Hello-World'', branch = None\<rparr>
   \<and> (\<not> matches_short (cleanUrl ''https://github.com/acme/widgets'')
      \<and> simple_URL (cleanUrl ''https://github.com/acme/widgets'')
          = Some \<lparr>hostname = ''github.com'', pathname = ''/'' @ ''acme'' @ ''/'' @ ''widgets''\<rparr>
      \<and> ''acme'' \<noteq> [] \<and> ''widgets'' \<noteq> []
      \<and> CHR ''/'' \<notin> set ''acme'' \<and> CHR ''/'' \<notin> set ''widgets'')
   \<and> parseGitHubUrl simple_URL ''https://github.com/acme/widgets''
       = Some \<lparr>owner = ''acme'', repo = ''widgets'', branch = None\<rparr>
   \<and> simple_URL ''https://github.com/acme/widgets/tree/dev''
       = Some \<lparr>hostname = ''github.com'', pathname = ''/acme/widgets/tree/dev''\<rparr>
   \<and> parseGitHubUrl simple_URL ''https://github.com/acme/widgets/tree/dev''
       = Some \<lparr>owner = ''acme'', repo = ''widgets'', branch = Some ''dev''\<rparr>
   \<and> (''https://github.com/acme/widgets/tree/dev'' \<noteq> []
      \<and> parseGitHubUrl (new_URL demo) ''https://github.com/acme/widgets/tree/dev''
          = Some \<lparr>owner = ''acme'', repo = ''widgets'', branch = Some ''dev''\<rparr>
      \<and> ''main'' \<noteq> [])
   \<and> POST demo (Inr \<lparr>repoUrl = Some ''https://github.com/acme/widgets/tree/dev'',
                       requestedBranch = Some ''main''\<rparr>)
       = (\<lparr>res_status = 200,
            res_body =
              Success
                \<lparr>res_owner = ''acme'', res_repo = ''widgets'', res_branch = ''main'',
                 files =
                   [\<lparr>rec_path = ''src/a.py'', rec_content = ''x = 1'', rec_size = 5,
                     rec_language = ''Python''\<rparr>,
                    \<lparr>rec_path = ''src/c.py'', rec_content = ''print(1)'', rec_size = 8,
                     rec_language = ''Python''\<rparr>],
                 totalFiles = 4, fetchedFiles = 2, truncatedFiles = 2,
                 res_tree = [(''src/a.py'', Some 5), (''src/b.py'', Some 7),
                             (''src/c.py'', Some 8), (''src/huge.py'', Some 100001)]\<rparr>\<rparr>,
          [''https://api.github.com/repos/acme/widgets/git/trees/main?recursive=1'',
           ''https://api.github.com/repos/acme/widgets/contents/src/a.py?ref=main'',
           ''https://api.github.com/repos/acme/widgets/contents/src/b.py?ref=main'',
           ''https://api.github.com/repos/acme/widgets/contents/src/c.py?ref=main''])
   \<and> (''https://github.com/acme/widgets/tree/dev'' \<noteq> []
      \<and> parseGitHubUrl (new_URL demo) ''https://github.com/acme/widgets/tree/dev''
          = Some \<lparr>owner = ''acme'', repo = ''widgets'', branch = Some ''dev''\<rparr>
      \<and> \<not> truthy None
      \<and> branch \<lparr>owner = ''acme'', repo = ''widgets'', branch = Some ''dev''\<rparr> = Some ''dev''
      \<and> ''dev'' \<noteq> [])
   \<and> POST demo (Inr \<lparr>repoUrl = Some ''https://github.com/acme/widgets/tree/dev'',
                       requestedBranch = None\<rparr>)
       = POST demo (Inr \<lparr>repoUrl = Some ''https://github.com/acme/widgets/tree/dev'',
                         requestedBranch = Some ''dev''\<rparr>)"
proof -
  have h1: "''octocat'' \<noteq> [] \<and> ''Hello-World'' \<noteq> [] \<and> list_all is_repo_chr ''octocat''
            \<and> list_all is_repo_chr ''Hello-World'' \<and> \<not> endsWith ''Hello-World'' ''.git''"
    by code_simp
  have h2: "\<not> matches_short (cleanUrl ''https://github.com/acme/widgets'')
            \<and> simple_URL (cleanUrl ''https://github.com/acme/widgets'')
                = Some \<lparr>hostname = ''github.com'', pathname = ''/'' @ ''acme'' @ ''/'' @ ''widgets''\<rparr>
            \<and> ''acme'' \<noteq> [] \<and> ''widgets'' \<noteq> []
            \<and> CHR ''/'' \<notin> set ''acme'' \<and> CHR ''/'' \<notin> set ''widgets''"
    by code_simp
  have h3: "simple_URL ''https://github.com/acme/widgets/tree/dev''
            = Some \<lparr>hostname = ''github.com'', pathname = ''/acme/widgets/tree/dev''\<rparr>"
    by code_simp
  have h4: "''https://github.com/acme/widgets/tree/dev'' \<noteq> []
            \<and> parseGitHubUrl (new_URL demo) ''https://github.com/acme/widgets/tree/dev''
                = Some \<lparr>owner = ''acme'', repo = ''widgets'', branch = Some ''dev''\<rparr>
            \<and> ''main'' \<noteq> []"
    by code_simp
  have h5: "''https://github.com/acme/widgets/tree/dev'' \<noteq> []
      \<and> parseGitHubUrl (new_URL demo) ''https://github.com/acme/widgets/tree/dev''
          = Some \<lparr>owner = ''acme'', repo = ''widgets'', branch = Some ''dev''\<rparr>
      \<and> \<not> truthy None
      \<and> branch \<lparr>owner = ''acme'', repo = ''widgets'', branch = Some ''dev''\<rparr> = Some ''dev''
      \<and> ''dev'' \<noteq> []"
    by code_simp
  note c1 = parser_recognizes_three_forms
    [where ow = "''octocat''" and rp = "''Hello-World''" and U = simple_URL,
     THEN conjunct1, THEN mp, OF h1]
  note c2 = parser_recognizes_three_forms
    [where ow = "''acme''" and rp = "''widgets''" and U = simple_URL
       and url = "''https://github.com/acme/widgets''",
     THEN conjunct2, THEN conjunct1, THEN mp, OF h2]
  note c3 = parser_recognizes_three_forms
    [where U = simple_URL,
     THEN conjunct2, THEN conjunct2, THEN conjunct2, THEN conjunct2, THEN conjunct2,
     THEN conjunct2, THEN conjunct2, THEN mp, OF h3]
  note c4 = parser_recognizes_three_forms
    [where P = demo and loc = "''https://github.com/acme/widgets/tree/dev''"
       and parsed = "\<lparr>owner = ''acme'', repo = ''widgets'', branch = Some ''dev''\<rparr>"
       and rb = "''main''",
     THEN conjunct2, THEN conjunct2, THEN conjunct2, THEN conjunct2, THEN conjunct1,
     THEN mp, OF h4, THEN conjunct1]
  have run: "POST demo (Inr \<lparr>repoUrl = Some ''https://github.com/acme/widgets/tree/dev'',
                       requestedBranch = Some ''main''\<rparr>)
       = (\<lparr>res_status = 200,
            res_body =
              Success
                \<lparr>res_owner = ''acme'', res_repo = ''widgets'', res_branch = ''main'',
                 files =
                   [\<lparr>rec_path = ''src/a.py'', rec_content = ''x = 1'', rec_size = 5,
                     rec_language = ''Python''\<rparr>,
                    \<lparr>rec_path = ''src/c.py'', rec_content = ''print(1)'', rec_size = 8,
                     rec_language = ''Python''\<rparr>],
                 totalFiles = 4, fetchedFiles = 2, truncatedFiles = 2,
                 res_tree = [(''src/a.py'', Some 5), (''src/b.py'', Some 7),
                             (''src/c.py'', Some 8), (''src/huge.py'', Some 100001)]\<rparr>\<rparr>,
          [''https://api.github.com/repos/acme/widgets/git/trees/main?recursive=1'',
           ''https://api.github.com/repos/acme/widgets/contents/src/a.py?ref=main'',
           ''https://api.github.com/repos/acme/widgets/contents/src/b.py?ref=main'',
           ''https://api.github.com/repos/acme/widgets/contents/src/c.py?ref=main''])"
    by (subst c4) code_simp
  note c5 = parser_recognizes_three_forms
    [where P = demo and loc = "''https://github.com/acme/widgets/tree/dev''"
       and parsed = "\<lparr>owner = ''acme'', repo = ''widgets'', branch = Some ''dev''\<rparr>"
       and rq = None and b = "''dev''",
     THEN conjunct2, THEN conjunct2, THEN conjunct2, THEN conjunct2, THEN conjunct2,
     THEN conjunct1, THEN mp, OF h5]
  show ?thesis
    by (rule conjI [OF h1 conjI [OF c1 conjI [OF h2 conjI [OF c2 conjI [OF h3 conjI [OF c3
          conjI [OF h4 conjI [OF run conjI [OF h5 c5]]]]]]]]])
qed

section \<open>What a successful response contains\<close>

lemma POST_Success_cases:
  assumes "res_body (fst (POST P request)) = Success s"
  obtains body url parsed targetBranch log1 allFiles log2 where
    "request = Inr body" "repoUrl body = Some url" "url \<noteq> []"
    "parseGitHubUrl (new_URL P) url = Some parsed"
    "getDefaultBranch P (requestHeaders P) (owner parsed) (repo parsed)
       (if truthy (requestedBranch body) then requestedBranch body else branch parsed)
     = (Inr targetBranch, log1)"
    "getFileTree P (requestHeaders P) (owner parsed) (repo parsed) targetBranch
     = (Inr allFiles, log2)"
proof (cases request)
  case (Inl e)
  with assms show ?thesis by (simp add: POST_def caught_def)
next
  case (Inr body)
  show ?thesis
  proof (cases "truthy (repoUrl body)")
    case False
    with assms Inr show ?thesis by (simp add: POST_no_url)
  next
    case True
    then obtain url where u: "repoUrl body = Some url" "url \<noteq> []"
      by (auto simp: truthy_def split: option.splits)
    show ?thesis
    proof (cases "parseGitHubUrl (new_URL P) url")
      case None
      with assms Inr u show ?thesis by (simp add: POST_unparsed)
    next
      case (Some parsed)
      let ?br = "if truthy (requestedBranch body) then requestedBranch body else branch parsed"
      obtain r1 log1 where g:
        "getDefaultBranch P (requestHeaders P) (owner parsed) (repo parsed) ?br = (r1, log1)"
        by (cases "getDefaultBranch P (requestHeaders P) (owner parsed) (repo parsed) ?br")
      show ?thesis
      proof (cases r1)
        case (Inl response)
        have "POST P (Inr body) = (response, log1)"
          using g Inl by (intro POST_early_branch [OF u Some]) simp
        moreover have "\<exists>msg. res_body response = Failure msg"
          using getDefaultBranch_failure g Inl by blast
        ultimately show ?thesis using assms Inr by auto
      next
        case tb: (Inr targetBranch)
        obtain r2 log2 where t:
          "getFileTree P (requestHeaders P) (owner parsed) (repo parsed) targetBranch = (r2, log2)"
          by (cases "getFileTree P (requestHeaders P) (owner parsed) (repo parsed) targetBranch")
        show ?thesis
        proof (cases r2)
          case (Inl response)
          have "POST P (Inr body) = (response, log1 @ log2)"
            using g tb t Inl by (intro POST_early_tree [OF u Some]) simp_all
          moreover have "\<exists>msg. res_body response = Failure msg"
            using getFileTree_failure t Inl by blast
          ultimately show ?thesis using assms \<open>request = Inr body\<close> by auto
        next
          case (Inr allFiles)
          show ?thesis
            using that [OF \<open>request = Inr body\<close> u Some] g tb t Inr by simp
        qed
      qed
    qed
  qed
qed

lemma POST_Success_body:
  assumes "res_body (fst (POST P request)) = Success s"
  shows "\<exists>ow rp tb allFiles.
           files s = List.map_filter (\<lambda>f. fst (fetchFile P (requestHeaders P) ow rp tb f))
                       (collectFiles route_limits allFiles [] 0)
           \<and> totalFiles s = int (length allFiles)
           \<and> fetchedFiles s = int (length (files s))
           \<and> truncatedFiles s = int (length allFiles) - int (length (files s))"
proof -
  from assms obtain body url parsed targetBranch log1 allFiles log2 where h:
    "request = Inr body" "repoUrl body = Some url" "url \<noteq> []"
    "parseGitHubUrl (new_URL P) url = Some parsed"
    "getDefaultBranch P (requestHeaders P) (owner parsed) (repo parsed)
       (if truthy (requestedBranch body) then requestedBranch body else branch parsed)
     = (Inr targetBranch, log1)"
    "getFileTree P (requestHeaders P) (owner parsed) (repo parsed) targetBranch
     = (Inr allFiles, log2)"
    by (rule POST_Success_cases)
  from POST_success [OF h(2-6)] assms h(1)
  have "s = \<lparr>res_owner = owner parsed,
             res_repo = repo parsed,
             res_branch = targetBranch,
             files = List.map_filter
                       (\<lambda>f. fst (fetchFile P (requestHeaders P) (owner parsed) (repo parsed)
                                    targetBranch f))
                       (collectFiles route_limits allFiles [] 0),
             totalFiles = int (length allFiles),
             fetchedFiles = int (length (List.map_filter
                       (\<lambda>f. fst (fetchFile P (requestHeaders P) (owner parsed) (repo parsed)
                                    targetBranch f))
                       (collectFiles route_limits allFiles [] 0))),
             truncatedFiles = int (length allFiles) - int (length (List.map_filter
                       (\<lambda>f. fst (fetchFile P (requestHeaders P) (owner parsed) (repo parsed)
                                    targetBranch f))
                       (collectFiles route_limits allFiles [] 0))),
             res_tree = map (\<lambda>f. (item_path f, item_size f)) allFiles\<rparr>"
    by (simp add: Let_def)
  then show ?thesis by (intro exI [of _ "owner parsed"] exI [of _ "repo parsed"]
        exI [of _ targetBranch] exI [of _ allFiles]) simp
qed


section \<open>Terminal failures and their status\<close>











section \<open>The content fetch, file by file\<close>

lemma fetchFile_calls: "snd (fetchFile P headers ow rp tb f) = [contentApiUrl ow rp tb f]"
  by (simp add: fetchFile_def)

lemma fetchFile_Some:
  "fst (fetchFile P headers ow rp tb f) = Some r \<longleftrightarrow>
   (\<exists>contentRes contentData c.
      fetch P (contentApiUrl ow rp tb f) headers = Inr contentRes \<and> ok contentRes
      \<and> json contentRes = Inr contentData
      \<and> encoding contentData = Some ''base64'' \<and> content contentData = Some c \<and> c \<noteq> []
      \<and> CHR 0x00 \<notin> set (base64_to_utf8 P c)
      \<and> r = \<lparr>rec_path = item_path f,
               rec_content = base64_to_utf8 P c,
               rec_size = (case item_size f of
                             None \<Rightarrow> int (length (base64_to_utf8 P c))
                           | Some n \<Rightarrow> if n = 0 then int (length (base64_to_utf8 P c)) else n),
               rec_language = getLanguageFromPath (item_path f)\<rparr>)"
  by (auto simp: fetchFile_def Let_def split: sum.splits option.splits if_splits)

lemma length_map_filter_le: "length (List.map_filter g xs) \<le> length xs"
  by (simp add: List.map_filter_def)

lemma map_rec_path:
  "map rec_path (List.map_filter (\<lambda>f. fst (fetchFile P headers ow rp tb f)) fs)
   = map item_path (filter (\<lambda>f. fst (fetchFile P headers ow rp tb f) \<noteq> None) fs)"
proof (induction fs)
  case Nil
  show ?case by (simp add: List.map_filter_simps)
next
  case (Cons f fs)
  show ?case
  proof (cases "fst (fetchFile P headers ow rp tb f)")
    case None
    with Cons show ?thesis by (simp add: List.map_filter_simps)
  next
    case (Some r)
    then have "rec_path r = item_path f" by (auto simp: fetchFile_Some)
    with Some Cons show ?thesis by (simp add: List.map_filter_simps)
  qed
qed

lemma fetchFile_settle: "fetchFile (P\<lparr>settle_order := so\<rparr>) = fetchFile P"
  by (intro ext) (simp add: fetchFile_def cong: sum.case_cong option.case_cong if_cong)

lemma requestHeaders_settle: "requestHeaders (P\<lparr>settle_order := so\<rparr>) = requestHeaders P"
  by (simp add: requestHeaders_def)

lemma returned_settle: "returned (P\<lparr>settle_order := so\<rparr>) = returned P"
  by (intro ext) (simp add: returned_def NextResponse_json_def)

lemma getDefaultBranch_settle: "getDefaultBranch (P\<lparr>settle_order := so\<rparr>) = getDefaultBranch P"
  by (intro ext) (simp add: getDefaultBranch_def returned_settle
      cong: sum.case_cong option.case_cong if_cong)

lemma getFileTree_settle: "getFileTree (P\<lparr>settle_order := so\<rparr>) = getFileTree P"
  by (intro ext) (simp add: getFileTree_def returned_settle
      cong: sum.case_cong option.case_cong if_cong)

lemma POST_settle: "POST (P\<lparr>settle_order := so\<rparr>) request = POST P request"
  by (simp add: POST_def fetchContents_all fetchFile_settle getDefaultBranch_settle
      getFileTree_settle requestHeaders_settle returned_settle
      cong: sum.case_cong option.case_cong prod.case_cong if_cong
      del: fetchContents.simps)


section \<open>Files that fail are dropped, and only counted\<close>

text \<open>
  C5. A content fetch that rejects, that answers with a status that is not a success, whose
  body does not parse, whose encoding marker is not \<^verbatim>\<open>base64\<close>, or whose decoded text
  contains a null byte gives \<^verbatim>\<open>null\<close> for that file. The batch loop never stops early: it
  requests every selected file once and returns the records of the files that succeeded,
  in order, which are at most as many as the selected files. A run that lists the tree
  answers with the records of the selected files of that tree that succeeded, with the
  number of eligible files of that tree as total, the number of returned records as fetched
  count, and the number of eligible files of that tree minus the number of returned
  records as truncated count; every successful response comes from such a run. With three
  selected files of which the second is answered with 404, the result holds the records of
  the first and the third, and one file is dropped.
\<close>

theorem per_file_failures_are_dropped:
  "(fetch P (contentApiUrl ow rp tb f) headers = Inl e
      \<longrightarrow> fst (fetchFile P headers ow rp tb f) = None)
   \<and> (fetch P (contentApiUrl ow rp tb f) headers = Inr contentRes \<and> \<not> ok contentRes
      \<longrightarrow> fst (fetchFile P headers ow rp tb f) = None)
   \<and> (fetch P (contentApiUrl ow rp tb f) headers = Inr contentRes \<and> json contentRes = Inl e
      \<longrightarrow> fst (fetchFile P headers ow rp tb f) = None)
   \<and> (fetch P (contentApiUrl ow rp tb f) headers = Inr contentRes
      \<and> json contentRes = Inr contentData \<and> encoding contentData \<noteq> Some ''base64''
      \<longrightarrow> fst (fetchFile P headers ow rp tb f) = None)
   \<and> (fetch P (contentApiUrl ow rp tb f) headers = Inr contentRes
      \<and> json contentRes = Inr contentData \<and> content contentData = Some c
      \<and> CHR 0x00 \<in> set (base64_to_utf8 P c)
      \<longrightarrow> fst (fetchFile P headers ow rp tb f) = None)
   \<and> snd (fetchFile P headers ow rp tb f) = [contentApiUrl ow rp tb f]
   \<and> fetchContents sched get filesToFetch 0 ([], [])
       = (List.map_filter (\<lambda>f. fst (get f)) filesToFetch,
          concat (map (\<lambda>f. snd (get f)) filesToFetch))
   \<and> length (fst (fetchContents sched get filesToFetch 0 ([], []))) \<le> length filesToFetch
   \<and> (repoUrl body = Some url \<and> url \<noteq> [] \<and> parseGitHubUrl (new_URL P) url = Some parsed
      \<and> getDefaultBranch P (requestHeaders P) (owner parsed) (repo parsed)
           (if truthy (requestedBranch body) then requestedBranch body else branch parsed)
          = (Inr targetBranch, log1)
      \<and> fetch P (treeApiUrl (owner parsed) (repo parsed) targetBranch) (requestHeaders P)
          = Inr treeRes
      \<and> ok treeRes \<and> json treeRes = Inr treeData
      \<longrightarrow> (let eligible = eligibleFiles (case tree treeData of None \<Rightarrow> [] | Some t \<Rightarrow> t);
               selected = selectFiles route_limits eligible;
               records =
                 List.map_filter
                   (\<lambda>f. fst (fetchFile P (requestHeaders P) (owner parsed) (repo parsed)
                                targetBranch f))
                   selected
           in POST P (Inr body)
              = (\<lparr>res_status = 200,
                   res_body =
                     Success
                       \<lparr>res_owner = owner parsed,
                        res_repo = repo parsed,
                        res_branch = targetBranch,
                        files = records,
                        totalFiles = int (length eligible),
                        fetchedFiles = int (length records),
                        truncatedFiles = int (length eligible) - int (length records),
                        res_tree = map (\<lambda>f. (item_path f, item_size f)) (sortBySize eligible)\<rparr>\<rparr>,
                 log1 @ treeApiUrl (owner parsed) (repo parsed) targetBranch
                 # map (contentApiUrl (owner parsed) (repo parsed) targetBranch) selected)))
   \<and> (res_body (fst (POST P request)) = Success s
      \<longrightarrow> (\<exists>body url parsed targetBranch log1 treeRes treeData.
             request = Inr body
             \<and> repoUrl body = Some url \<and> url \<noteq> []
             \<and> parseGitHubUrl (new_URL P) url = Some parsed
             \<and> getDefaultBranch P (requestHeaders P) (owner parsed) (repo parsed)
                  (if truthy (requestedBranch body) then requestedBranch body
                   else branch parsed)
                 = (Inr targetBranch, log1)
             \<and> fetch P (treeApiUrl (owner parsed) (repo parsed) targetBranch) (requestHeaders P)
                 = Inr treeRes
             \<and> ok treeRes \<and> json treeRes = Inr treeData
             \<and> files s
                 = List.map_filter
                     (\<lambda>f. fst (fetchFile P (requestHeaders P) (owner parsed) (repo parsed)
                                  targetBranch f))
                     (selectFiles route_limits
                        (eligibleFiles (case tree treeData of None \<Rightarrow> [] | Some t \<Rightarrow> t)))
             \<and> totalFiles s
                 = int (length (eligibleFiles
                                  (case tree treeData of None \<Rightarrow> [] | Some t \<Rightarrow> t)))
             \<and> fetchedFiles s = int (length (files s))
             \<and> truncatedFiles s
                 = int (length (eligibleFiles
                                  (case tree treeData of None \<Rightarrow> [] | Some t \<Rightarrow> t)))
                   - int (length (files s))))
   \<and> (fst (fetchFile P headers ow rp tb f1) = Some r1
      \<and> fetch P (contentApiUrl ow rp tb f2) headers = Inr res2 \<and> status res2 = 404
      \<and> fst (fetchFile P headers ow rp tb f3) = Some r3
      \<longrightarrow> fst (fetchContents sched (fetchFile P headers ow rp tb) [f1, f2, f3] 0 ([], []))
            = [r1, r3]
          \<and> int (length [f1, f2, f3])
            - int (length (fst (fetchContents sched (fetchFile P headers ow rp tb)
                                  [f1, f2, f3] 0 ([], []))))
            = 1)"
proof -
  have a: "fetch P (contentApiUrl ow rp tb f) headers = Inl e
      \<longrightarrow> fst (fetchFile P headers ow rp tb f) = None"
    by (simp add: fetchFile_def)
  have b: "fetch P (contentApiUrl ow rp tb f) headers = Inr contentRes \<and> \<not> ok contentRes
      \<longrightarrow> fst (fetchFile P headers ow rp tb f) = None"
    by (simp add: fetchFile_def)
  have c: "fetch P (contentApiUrl ow rp tb f) headers = Inr contentRes \<and> json contentRes = Inl e
      \<longrightarrow> fst (fetchFile P headers ow rp tb f) = None"
    by (simp add: fetchFile_def)
  have d: "fetch P (contentApiUrl ow rp tb f) headers = Inr contentRes
      \<and> json contentRes = Inr contentData \<and> encoding contentData \<noteq> Some ''base64''
      \<longrightarrow> fst (fetchFile P headers ow rp tb f) = None"
    by (auto simp: fetchFile_def split: option.splits)
  have e: "fetch P (contentApiUrl ow rp tb f) headers = Inr contentRes
      \<and> json contentRes = Inr contentData \<and> content contentData = Some c
      \<and> CHR 0x00 \<in> set (base64_to_utf8 P c)
      \<longrightarrow> fst (fetchFile P headers ow rp tb f) = None"
    by (auto simp: fetchFile_def split: option.splits)
  have g: "snd (fetchFile P headers ow rp tb f) = [contentApiUrl ow rp tb f]"
    by (rule fetchFile_calls)
  have h: "fetchContents sched get filesToFetch 0 ([], [])
       = (List.map_filter (\<lambda>f. fst (get f)) filesToFetch,
          concat (map (\<lambda>f. snd (get f)) filesToFetch))"
    by (simp add: fetchContents_all del: fetchContents.simps)
  have i: "length (fst (fetchContents sched get filesToFetch 0 ([], []))) \<le> length filesToFetch"
    unfolding h by (simp add: length_map_filter_le)
  have j: "repoUrl body = Some url \<and> url \<noteq> [] \<and> parseGitHubUrl (new_URL P) url = Some parsed
      \<and> getDefaultBranch P (requestHeaders P) (owner parsed) (repo parsed)
           (if truthy (requestedBranch body) then requestedBranch body else branch parsed)
          = (Inr targetBranch, log1)
      \<and> fetch P (treeApiUrl (owner parsed) (repo parsed) targetBranch) (requestHeaders P)
          = Inr treeRes
      \<and> ok treeRes \<and> json treeRes = Inr treeData
      \<longrightarrow> (let eligible = eligibleFiles (case tree treeData of None \<Rightarrow> [] | Some t \<Rightarrow> t);
               selected = selectFiles route_limits eligible;
               records =
                 List.map_filter
                   (\<lambda>f. fst (fetchFile P (requestHeaders P) (owner parsed) (repo parsed)
                                targetBranch f))
                   selected
           in POST P (Inr body)
              = (\<lparr>res_status = 200,
                   res_body =
                     Success
                       \<lparr>res_owner = owner parsed,
                        res_repo = repo parsed,
                        res_branch = targetBranch,
                        files = records,
                        totalFiles = int (length eligible),
                        fetchedFiles = int (length records),
                        truncatedFiles = int (length eligible) - int (length records),
                        res_tree = map (\<lambda>f. (item_path f, item_size f)) (sortBySize eligible)\<rparr>\<rparr>,
                 log1 @ treeApiUrl (owner parsed) (repo parsed) targetBranch
                 # map (contentApiUrl (owner parsed) (repo parsed) targetBranch) selected))"
  proof (intro impI, elim conjE)
    assume h: "repoUrl body = Some url" "url \<noteq> []" "parseGitHubUrl (new_URL P) url = Some parsed"
      and g: "getDefaultBranch P (requestHeaders P) (owner parsed) (repo parsed)
           (if truthy (requestedBranch body) then requestedBranch body else branch parsed)
          = (Inr targetBranch, log1)"
      and f: "fetch P (treeApiUrl (owner parsed) (repo parsed) targetBranch) (requestHeaders P)
          = Inr treeRes" "ok treeRes" "json treeRes = Inr treeData"
    show "let eligible = eligibleFiles (case tree treeData of None \<Rightarrow> [] | Some t \<Rightarrow> t);
               selected = selectFiles route_limits eligible;
               records =
                 List.map_filter
                   (\<lambda>f. fst (fetchFile P (requestHeaders P) (owner parsed) (repo parsed)
                                targetBranch f))
                   selected
           in POST P (Inr body)
              = (\<lparr>res_status = 200,
                   res_body =
                     Success
                       \<lparr>res_owner = owner parsed,
                        res_repo = repo parsed,
                        res_branch = targetBranch,
                        files = records,
                        totalFiles = int (length eligible),
                        fetchedFiles = int (length records),
                        truncatedFiles = int (length eligible) - int (length records),
                        res_tree = map (\<lambda>f. (item_path f, item_size f)) (sortBySize eligible)\<rparr>\<rparr>,
                 log1 @ treeApiUrl (owner parsed) (repo parsed) targetBranch
                 # map (contentApiUrl (owner parsed) (repo parsed) targetBranch) selected)"
      unfolding Let_def POST_success [OF h g getFileTree_listed [OF f]]
      by (simp add: selectFiles_def sortBySize_def)
  qed
  have j': "res_body (fst (POST P request)) = Success s
      \<longrightarrow> (\<exists>body url parsed targetBranch log1 treeRes treeData.
             request = Inr body
             \<and> repoUrl body = Some url \<and> url \<noteq> []
             \<and> parseGitHubUrl (new_URL P) url = Some parsed
             \<and> getDefaultBranch P (requestHeaders P) (owner parsed) (repo parsed)
                  (if truthy (requestedBranch body) then requestedBranch body
                   else branch parsed)
                 = (Inr targetBranch, log1)
             \<and> fetch P (treeApiUrl (owner parsed) (repo parsed) targetBranch) (requestHeaders P)
                 = Inr treeRes
             \<and> ok treeRes \<and> json treeRes = Inr treeData
             \<and> files s
                 = List.map_filter
                     (\<lambda>f. fst (fetchFile P (requestHeaders P) (owner parsed) (repo parsed)
                                  targetBranch f))
                     (selectFiles route_limits
                        (eligibleFiles (case tree treeData of None \<Rightarrow> [] | Some t \<Rightarrow> t)))
             \<and> totalFiles s
                 = int (length (eligibleFiles
                                  (case tree treeData of None \<Rightarrow> [] | Some t \<Rightarrow> t)))
             \<and> fetchedFiles s = int (length (files s))
             \<and> truncatedFiles s
                 = int (length (eligibleFiles
                                  (case tree treeData of None \<Rightarrow> [] | Some t \<Rightarrow> t)))
                   - int (length (files s)))"
  proof
    assume a: "res_body (fst (POST P request)) = Success s"
    then obtain body url parsed targetBranch log1 allFiles log2 where h:
      "request = Inr body" "repoUrl body = Some url" "url \<noteq> []"
      "parseGitHubUrl (new_URL P) url = Some parsed"
      "getDefaultBranch P (requestHeaders P) (owner parsed) (repo parsed)
         (if truthy (requestedBranch body) then requestedBranch body else branch parsed)
       = (Inr targetBranch, log1)"
      "getFileTree P (requestHeaders P) (owner parsed) (repo parsed) targetBranch
       = (Inr allFiles, log2)"
      by (rule POST_Success_cases)
    from getFileTree_Inr [OF h(6)] obtain treeRes treeData where t:
      "fetch P (treeApiUrl (owner parsed) (repo parsed) targetBranch) (requestHeaders P)
       = Inr treeRes" "ok treeRes" "json treeRes = Inr treeData"
      "allFiles = sortBySize (eligibleFiles (case tree treeData of None \<Rightarrow> [] | Some t \<Rightarrow> t))"
      by blast
    have s: "res_body (fst (POST P (Inr body))) = Success s"
      using a h(1) by simp
    have v: "files s
                 = List.map_filter
                     (\<lambda>f. fst (fetchFile P (requestHeaders P) (owner parsed) (repo parsed)
                                  targetBranch f))
                     (selectFiles route_limits
                        (eligibleFiles (case tree treeData of None \<Rightarrow> [] | Some t \<Rightarrow> t)))
             \<and> totalFiles s
                 = int (length (eligibleFiles
                                  (case tree treeData of None \<Rightarrow> [] | Some t \<Rightarrow> t)))
             \<and> fetchedFiles s = int (length (files s))
             \<and> truncatedFiles s
                 = int (length (eligibleFiles
                                  (case tree treeData of None \<Rightarrow> [] | Some t \<Rightarrow> t)))
                   - int (length (files s))"
      using s unfolding POST_success [OF h(2-6)] t(4)
      by (auto simp: selectFiles_def sortBySize_def)
    show "\<exists>body url parsed targetBranch log1 treeRes treeData.
             request = Inr body
             \<and> repoUrl body = Some url \<and> url \<noteq> []
             \<and> parseGitHubUrl (new_URL P) url = Some parsed
             \<and> getDefaultBranch P (requestHeaders P) (owner parsed) (repo parsed)
                  (if truthy (requestedBranch body) then requestedBranch body
                   else branch parsed)
                 = (Inr targetBranch, log1)
             \<and> fetch P (treeApiUrl (owner parsed) (repo parsed) targetBranch) (requestHeaders P)
                 = Inr treeRes
             \<and> ok treeRes \<and> json treeRes = Inr treeData
             \<and> files s
                 = List.map_filter
                     (\<lambda>f. fst (fetchFile P (requestHeaders P) (owner parsed) (repo parsed)
                                  targetBranch f))
                     (selectFiles route_limits
                        (eligibleFiles (case tree treeData of None \<Rightarrow> [] | Some t \<Rightarrow> t)))
             \<and> totalFiles s
                 = int (length (eligibleFiles
                                  (case tree treeData of None \<Rightarrow> [] | Some t \<Rightarrow> t)))
             \<and> fetchedFiles s = int (length (files s))
             \<and> truncatedFiles s
                 = int (length (eligibleFiles
                                  (case tree treeData of None \<Rightarrow> [] | Some t \<Rightarrow> t)))
                   - int (length (files s))"
      using h(1-5) t(1-3) v by blast
  qed
  have k: "fst (fetchFile P headers ow rp tb f1) = Some r1
      \<and> fetch P (contentApiUrl ow rp tb f2) headers = Inr res2 \<and> status res2 = 404
      \<and> fst (fetchFile P headers ow rp tb f3) = Some r3
      \<longrightarrow> fst (fetchContents sched (fetchFile P headers ow rp tb) [f1, f2, f3] 0 ([], []))
            = [r1, r3]
          \<and> int (length [f1, f2, f3])
            - int (length (fst (fetchContents sched (fetchFile P headers ow rp tb)
                                  [f1, f2, f3] 0 ([], []))))
            = 1"
  proof (intro impI, elim conjE)
    assume 1: "fst (fetchFile P headers ow rp tb f1) = Some r1"
      and 2: "fetch P (contentApiUrl ow rp tb f2) headers = Inr res2" "status res2 = 404"
      and 3: "fst (fetchFile P headers ow rp tb f3) = Some r3"
    have "\<not> ok res2" using 2(2) by (simp add: ok_def)
    then have n: "fst (fetchFile P headers ow rp tb f2) = None"
      using 2(1) by (simp add: fetchFile_def)
    have "fst (fetchContents sched (fetchFile P headers ow rp tb) [f1, f2, f3] 0 ([], []))
          = [r1, r3]"
      using 1 n 3 by (simp add: fetchContents_all List.map_filter_simps del: fetchContents.simps)
    then show "fst (fetchContents sched (fetchFile P headers ow rp tb) [f1, f2, f3] 0 ([], []))
            = [r1, r3]
          \<and> int (length [f1, f2, f3])
            - int (length (fst (fetchContents sched (fetchFile P headers ow rp tb)
                                  [f1, f2, f3] 0 ([], []))))
            = 1"
      by simp
  qed
  show ?thesis
    by (rule conjI [OF a conjI [OF b conjI [OF c conjI [OF d conjI [OF e conjI [OF g
          conjI [OF h conjI [OF i conjI [OF j conjI [OF j' k]]]]]]]]]])
qed


theorem per_file_failures_are_dropped_witness:
  "(fst (fetchFile demo (requestHeaders demo) ''acme'' ''widgets'' ''main''
           \<lparr>item_path = ''src/a.py'', item_type = ''blob'', item_size = Some 5\<rparr>)
      = Some \<lparr>rec_path = ''src/a.py'', rec_content = ''x = 1'', rec_size = 5,
               rec_language = ''Python''\<rparr>
    \<and> fetch demo
         (contentApiUrl ''acme'' ''widgets'' ''main''
            \<lparr>item_path = ''src/b.py'', item_type = ''blob'', item_size = Some 7\<rparr>)
         (requestHeaders demo)
        = Inr not_found
    \<and> status not_found = 404
    \<and> fst (fetchFile demo (requestHeaders demo) ''acme'' ''widgets'' ''main''
             \<lparr>item_path = ''src/c.py'', item_type = ''blob'', item_size = Some 8\<rparr>)
        = Some \<lparr>rec_path = ''src/c.py'', rec_content = ''print(1)'', rec_size = 8,
                 rec_language = ''Python''\<rparr>)
   \<and> (fst (fetchContents (settle_order demo)
             (fetchFile demo (requestHeaders demo) ''acme'' ''widgets'' ''main'')
             [\<lparr>item_path = ''src/a.py'', item_type = ''blob'', item_size = Some 5\<rparr>,
              \<lparr>item_path = ''src/b.py'', item_type = ''blob'', item_size = Some 7\<rparr>,
              \<lparr>item_path = ''src/c.py'', item_type = ''blob'', item_size = Some 8\<rparr>]
             0 ([], []))
        = [\<lparr>rec_path = ''src/a.py'', rec_content = ''x = 1'', rec_size = 5,
             rec_language = ''Python''\<rparr>,
           \<lparr>rec_path = ''src/c.py'', rec_content = ''print(1)'', rec_size = 8,
             rec_language = ''Python''\<rparr>]
      \<and> int (length
            [\<lparr>item_path = ''src/a.py'', item_type = ''blob'', item_size = Some 5\<rparr>,
             \<lparr>item_path = ''src/b.py'', item_type = ''blob'', item_size = Some 7\<rparr>,
             \<lparr>item_path = ''src/c.py'', item_type = ''blob'', item_size = Some 8\<rparr>])
        - int (length (fst (fetchContents (settle_order demo)
             (fetchFile demo (requestHeaders demo) ''acme'' ''widgets'' ''main'')
             [\<lparr>item_path = ''src/a.py'', item_type = ''blob'', item_size = Some 5\<rparr>,
              \<lparr>item_path = ''src/b.py'', item_type = ''blob'', item_size = Some 7\<rparr>,
              \<lparr>item_path = ''src/c.py'', item_type = ''blob'', item_size = Some 8\<rparr>]
             0 ([], []))))
        = 1)
   \<and> (repoUrl \<lparr>repoUrl = Some ''acme/widgets'', requestedBranch = None\<rparr> = Some ''acme/widgets''
      \<and> ''acme/widgets'' \<noteq> []
      \<and> parseGitHubUrl (new_URL demo) ''acme/widgets'' = Some \<lparr>owner = ''acme'', repo = ''widgets'', branch = None\<rparr>
      \<and> getDefaultBranch demo (requestHeaders demo) (owner \<lparr>owner = ''acme'', repo = ''widgets'', branch = None\<rparr>) (repo \<lparr>owner = ''acme'', repo = ''widgets'', branch = None\<rparr>)
           (if truthy (requestedBranch \<lparr>repoUrl = Some ''acme/widgets'', requestedBranch = None\<rparr>)
            then requestedBranch \<lparr>repoUrl = Some ''acme/widgets'', requestedBranch = None\<rparr>
            else branch \<lparr>owner = ''acme'', repo = ''widgets'', branch = None\<rparr>)
          = (Inr ''main'', [''https://api.github.com/repos/acme/widgets''])
      \<and> fetch demo (treeApiUrl (owner \<lparr>owner = ''acme'', repo = ''widgets'', branch = None\<rparr>) (repo \<lparr>owner = ''acme'', repo = ''widgets'', branch = None\<rparr>) ''main'') (requestHeaders demo)
          = Inr (respond_ok (no_fields\<lparr>tree := Some main_tree\<rparr>))
      \<and> ok (respond_ok (no_fields\<lparr>tree := Some main_tree\<rparr>))
      \<and> json (respond_ok (no_fields\<lparr>tree := Some main_tree\<rparr>)) = Inr (no_fields\<lparr>tree := Some main_tree\<rparr>))
   \<and> (eligibleFiles (case tree (no_fields\<lparr>tree := Some main_tree\<rparr>) of None \<Rightarrow> [] | Some t \<Rightarrow> t)
       = [\<lparr>item_path = ''src/a.py'', item_type = ''blob'', item_size = Some 5\<rparr>,
          \<lparr>item_path = ''src/b.py'', item_type = ''blob'', item_size = Some 7\<rparr>,
          \<lparr>item_path = ''src/c.py'', item_type = ''blob'', item_size = Some 8\<rparr>,
          \<lparr>item_path = ''src/huge.py'', item_type = ''blob'', item_size = Some 100001\<rparr>]
   \<and> selectFiles route_limits
         (eligibleFiles (case tree (no_fields\<lparr>tree := Some main_tree\<rparr>) of None \<Rightarrow> [] | Some t \<Rightarrow> t))
       = [\<lparr>item_path = ''src/a.py'', item_type = ''blob'', item_size = Some 5\<rparr>,
          \<lparr>item_path = ''src/b.py'', item_type = ''blob'', item_size = Some 7\<rparr>,
          \<lparr>item_path = ''src/c.py'', item_type = ''blob'', item_size = Some 8\<rparr>])
   \<and> POST demo (Inr \<lparr>repoUrl = Some ''acme/widgets'', requestedBranch = None\<rparr>)
       = (\<lparr>res_status = 200,
            res_body =
              Success
                \<lparr>res_owner = ''acme'', res_repo = ''widgets'', res_branch = ''main'',
                 files =
                   [\<lparr>rec_path = ''src/a.py'', rec_content = ''x = 1'', rec_size = 5,
                     rec_language = ''Python''\<rparr>,
                    \<lparr>rec_path = ''src/c.py'', rec_content = ''print(1)'', rec_size = 8,
                     rec_language = ''Python''\<rparr>],
                 totalFiles = 4, fetchedFiles = 2, truncatedFiles = 2,
                 res_tree = [(''src/a.py'', Some 5), (''src/b.py'', Some 7),
                             (''src/c.py'', Some 8), (''src/huge.py'', Some 100001)]\<rparr>\<rparr>,
          [''https://api.github.com/repos/acme/widgets'',
           ''https://api.github.com/repos/acme/widgets/git/trees/main?recursive=1'',
           ''https://api.github.com/repos/acme/widgets/contents/src/a.py?ref=main'',
           ''https://api.github.com/repos/acme/widgets/contents/src/b.py?ref=main'',
           ''https://api.github.com/repos/acme/widgets/contents/src/c.py?ref=main''])"
proof -
  let ?a = "\<lparr>item_path = ''src/a.py'', item_type = ''blob'', item_size = Some 5\<rparr>"
  let ?b = "\<lparr>item_path = ''src/b.py'', item_type = ''blob'', item_size = Some 7\<rparr>"
  let ?c = "\<lparr>item_path = ''src/c.py'', item_type = ''blob'', item_size = Some 8\<rparr>"
  have h: "fst (fetchFile demo (requestHeaders demo) ''acme'' ''widgets'' ''main'' ?a)
      = Some \<lparr>rec_path = ''src/a.py'', rec_content = ''x = 1'', rec_size = 5,
               rec_language = ''Python''\<rparr>
    \<and> fetch demo (contentApiUrl ''acme'' ''widgets'' ''main'' ?b) (requestHeaders demo)
        = Inr not_found
    \<and> status not_found = 404
    \<and> fst (fetchFile demo (requestHeaders demo) ''acme'' ''widgets'' ''main'' ?c)
        = Some \<lparr>rec_path = ''src/c.py'', rec_content = ''print(1)'', rec_size = 8,
                 rec_language = ''Python''\<rparr>"
    by code_simp
  have hj: "repoUrl \<lparr>repoUrl = Some ''acme/widgets'', requestedBranch = None\<rparr> = Some ''acme/widgets''
      \<and> ''acme/widgets'' \<noteq> []
      \<and> parseGitHubUrl (new_URL demo) ''acme/widgets'' = Some \<lparr>owner = ''acme'', repo = ''widgets'', branch = None\<rparr>
      \<and> getDefaultBranch demo (requestHeaders demo) (owner \<lparr>owner = ''acme'', repo = ''widgets'', branch = None\<rparr>) (repo \<lparr>owner = ''acme'', repo = ''widgets'', branch = None\<rparr>)
           (if truthy (requestedBranch \<lparr>repoUrl = Some ''acme/widgets'', requestedBranch = None\<rparr>)
            then requestedBranch \<lparr>repoUrl = Some ''acme/widgets'', requestedBranch = None\<rparr>
            else branch \<lparr>owner = ''acme'', repo = ''widgets'', branch = None\<rparr>)
          = (Inr ''main'', [''https://api.github.com/repos/acme/widgets''])
      \<and> fetch demo (treeApiUrl (owner \<lparr>owner = ''acme'', repo = ''widgets'', branch = None\<rparr>) (repo \<lparr>owner = ''acme'', repo = ''widgets'', branch = None\<rparr>) ''main'') (requestHeaders demo)
          = Inr (respond_ok (no_fields\<lparr>tree := Some main_tree\<rparr>))
      \<and> ok (respond_ok (no_fields\<lparr>tree := Some main_tree\<rparr>))
      \<and> json (respond_ok (no_fields\<lparr>tree := Some main_tree\<rparr>)) = Inr (no_fields\<lparr>tree := Some main_tree\<rparr>)"
    by code_simp
  have el: "eligibleFiles (case tree (no_fields\<lparr>tree := Some main_tree\<rparr>) of None \<Rightarrow> [] | Some t \<Rightarrow> t)
       = [\<lparr>item_path = ''src/a.py'', item_type = ''blob'', item_size = Some 5\<rparr>,
          \<lparr>item_path = ''src/b.py'', item_type = ''blob'', item_size = Some 7\<rparr>,
          \<lparr>item_path = ''src/c.py'', item_type = ''blob'', item_size = Some 8\<rparr>,
          \<lparr>item_path = ''src/huge.py'', item_type = ''blob'', item_size = Some 100001\<rparr>]
   \<and> selectFiles route_limits
         (eligibleFiles (case tree (no_fields\<lparr>tree := Some main_tree\<rparr>) of None \<Rightarrow> [] | Some t \<Rightarrow> t))
       = [\<lparr>item_path = ''src/a.py'', item_type = ''blob'', item_size = Some 5\<rparr>,
          \<lparr>item_path = ''src/b.py'', item_type = ''blob'', item_size = Some 7\<rparr>,
          \<lparr>item_path = ''src/c.py'', item_type = ''blob'', item_size = Some 8\<rparr>]"
    by code_simp
  note ej = per_file_failures_are_dropped
    [where P = demo and body = "\<lparr>repoUrl = Some ''acme/widgets'', requestedBranch = None\<rparr>"
       and url = "''acme/widgets''" and parsed = "\<lparr>owner = ''acme'', repo = ''widgets'', branch = None\<rparr>"
       and targetBranch = "''main''" and ?log1.0 = "[''https://api.github.com/repos/acme/widgets'']"
       and treeRes = "respond_ok (no_fields\<lparr>tree := Some main_tree\<rparr>)" and treeData = "no_fields\<lparr>tree := Some main_tree\<rparr>",
     THEN conjunct2, THEN conjunct2, THEN conjunct2, THEN conjunct2, THEN conjunct2,
     THEN conjunct2, THEN conjunct2, THEN conjunct2, THEN conjunct1, THEN mp, OF hj,
     unfolded Let_def]
  have run: "POST demo (Inr \<lparr>repoUrl = Some ''acme/widgets'', requestedBranch = None\<rparr>)
       = (\<lparr>res_status = 200,
            res_body =
              Success
                \<lparr>res_owner = ''acme'', res_repo = ''widgets'', res_branch = ''main'',
                 files =
                   [\<lparr>rec_path = ''src/a.py'', rec_content = ''x = 1'', rec_size = 5,
                     rec_language = ''Python''\<rparr>,
                    \<lparr>rec_path = ''src/c.py'', rec_content = ''print(1)'', rec_size = 8,
                     rec_language = ''Python''\<rparr>],
                 totalFiles = 4, fetchedFiles = 2, truncatedFiles = 2,
                 res_tree = [(''src/a.py'', Some 5), (''src/b.py'', Some 7),
                             (''src/c.py'', Some 8), (''src/huge.py'', Some 100001)]\<rparr>\<rparr>,
          [''https://api.github.com/repos/acme/widgets'',
           ''https://api.github.com/repos/acme/widgets/git/trees/main?recursive=1'',
           ''https://api.github.com/repos/acme/widgets/contents/src/a.py?ref=main'',
           ''https://api.github.com/repos/acme/widgets/contents/src/b.py?ref=main'',
           ''https://api.github.com/repos/acme/widgets/contents/src/c.py?ref=main''])"
    by (subst ej) code_simp
  note k = per_file_failures_are_dropped
    [where sched = "settle_order demo",
     THEN conjunct2, THEN conjunct2, THEN conjunct2, THEN conjunct2, THEN conjunct2,
     THEN conjunct2, THEN conjunct2, THEN conjunct2, THEN conjunct2, THEN conjunct2,
     THEN mp, OF h]
  show ?thesis
    by (rule conjI [OF h conjI [OF k conjI [OF hj conjI [OF el run]]]])
qed


section \<open>The order of the file records\<close>

text \<open>
  C6. The file records come in the order in which their files were selected: the paths of
  the records are the paths of the selected files that gave a record, in the order of the
  selected set. The order in which the fetches of a batch complete has no effect on the
  result of the batch loop or on the response of the handler.
\<close>

theorem file_records_keep_selection_order:
  "Promise_all order promises = promises
   \<and> fetchContents sched get filesToFetch 0 ([], [])
       = (List.map_filter (\<lambda>f. fst (get f)) filesToFetch,
          concat (map (\<lambda>f. snd (get f)) filesToFetch))
   \<and> map rec_path (fst (fetchContents sched (fetchFile P headers ow rp tb) filesToFetch 0 ([], [])))
       = map item_path (filter (\<lambda>f. fst (fetchFile P headers ow rp tb f) \<noteq> None) filesToFetch)
   \<and> subseq
        (map rec_path (fst (fetchContents sched (fetchFile P headers ow rp tb) filesToFetch 0 ([], []))))
        (map item_path filesToFetch)
   \<and> fetchContents sched' get filesToFetch 0 ([], []) = fetchContents sched get filesToFetch 0 ([], [])
   \<and> POST (P\<lparr>settle_order := so\<rparr>) request = POST P request"
proof -
  have a: "Promise_all order promises = promises"
    by (rule Promise_all_input_order)
  have b: "fetchContents sched get filesToFetch 0 ([], [])
       = (List.map_filter (\<lambda>f. fst (get f)) filesToFetch,
          concat (map (\<lambda>f. snd (get f)) filesToFetch))"
    by (simp add: fetchContents_all del: fetchContents.simps)
  have c: "map rec_path (fst (fetchContents sched (fetchFile P headers ow rp tb) filesToFetch 0 ([], [])))
       = map item_path (filter (\<lambda>f. fst (fetchFile P headers ow rp tb f) \<noteq> None) filesToFetch)"
    by (simp add: fetchContents_all map_rec_path del: fetchContents.simps)
  have d: "subseq
        (map rec_path (fst (fetchContents sched (fetchFile P headers ow rp tb) filesToFetch 0 ([], []))))
        (map item_path filesToFetch)"
    unfolding c by (intro subseq_map subseq_filter_left)
  have e: "fetchContents sched' get filesToFetch 0 ([], [])
           = fetchContents sched get filesToFetch 0 ([], [])"
    by (simp add: fetchContents_all del: fetchContents.simps)
  have f: "POST (P\<lparr>settle_order := so\<rparr>) request = POST P request"
    by (rule POST_settle)
  show ?thesis
    by (rule conjI [OF a conjI [OF b conjI [OF c conjI [OF d conjI [OF e f]]]]])
qed


section \<open>From fetched content to file record\<close>

text \<open>
  C7 as stated fails for a file that is fetched successfully with an empty content string:
  its decoded text is empty and so has no null byte, yet line 254 treats the empty string
  as absent and no record is built.
\<close>

theorem empty_content_counterexample:
  "fetch demo
     (contentApiUrl ''acme'' ''widgets'' ''dev''
        \<lparr>item_path = ''empty.py'', item_type = ''blob'', item_size = Some 0\<rparr>)
     (requestHeaders demo)
   = Inr (respond_ok (file_body []))
   \<and> ok (respond_ok (file_body []))
   \<and> json (respond_ok (file_body [])) = Inr (file_body [])
   \<and> encoding (file_body []) = Some ''base64''
   \<and> content (file_body []) = Some []
   \<and> CHR 0x00 \<notin> set (base64_to_utf8 demo [])
   \<and> fst (fetchFile demo (requestHeaders demo) ''acme'' ''widgets'' ''dev''
             \<lparr>item_path = ''empty.py'', item_type = ''blob'', item_size = Some 0\<rparr>)
       = None"
  by code_simp

text \<open>
  C7, amended. For every file whose fetch succeeds with the \<^verbatim>\<open>base64\<close> marker and a
  non-empty content string, a record is built if and only if the decoded text contains no
  null byte, and the content of the record is the decoded text, unchanged. A response whose
  content string is empty is not decoded and gives no record.
\<close>

theorem normalizer_round_trip:
  "(fetch P (contentApiUrl ow rp tb f) headers = Inr contentRes \<and> ok contentRes
    \<and> json contentRes = Inr contentData
    \<and> encoding contentData = Some ''base64'' \<and> content contentData = Some c \<and> c \<noteq> []
    \<longrightarrow> ((\<exists>r. fst (fetchFile P headers ow rp tb f) = Some r)
           = (CHR 0x00 \<notin> set (base64_to_utf8 P c)))
        \<and> (\<forall>r. fst (fetchFile P headers ow rp tb f) = Some r
               \<longrightarrow> rec_content r = base64_to_utf8 P c \<and> rec_path r = item_path f))
   \<and> (fetch P (contentApiUrl ow rp tb f) headers = Inr contentRes
      \<and> json contentRes = Inr contentData \<and> content contentData = Some []
      \<longrightarrow> fst (fetchFile P headers ow rp tb f) = None)"
proof -
  have a: "fetch P (contentApiUrl ow rp tb f) headers = Inr contentRes \<and> ok contentRes
    \<and> json contentRes = Inr contentData
    \<and> encoding contentData = Some ''base64'' \<and> content contentData = Some c \<and> c \<noteq> []
    \<longrightarrow> ((\<exists>r. fst (fetchFile P headers ow rp tb f) = Some r)
           = (CHR 0x00 \<notin> set (base64_to_utf8 P c)))
        \<and> (\<forall>r. fst (fetchFile P headers ow rp tb f) = Some r
               \<longrightarrow> rec_content r = base64_to_utf8 P c \<and> rec_path r = item_path f)"
    by (auto simp: fetchFile_Some)
  have b: "fetch P (contentApiUrl ow rp tb f) headers = Inr contentRes
      \<and> json contentRes = Inr contentData \<and> content contentData = Some []
      \<longrightarrow> fst (fetchFile P headers ow rp tb f) = None"
    by (auto simp: fetchFile_def split: option.splits)
  show ?thesis
    by (rule conjI [OF a b])
qed

theorem normalizer_round_trip_witness:
  "(fetch demo
      (contentApiUrl ''acme'' ''widgets'' ''dev''
         \<lparr>item_path = ''e.py'', item_type = ''blob'', item_size = None\<rparr>)
      (requestHeaders demo)
     = Inr (respond_ok (file_body ''cHJpbnQoMSk=''))
    \<and> ok (respond_ok (file_body ''cHJpbnQoMSk=''))
    \<and> json (respond_ok (file_body ''cHJpbnQoMSk='')) = Inr (file_body ''cHJpbnQoMSk='')
    \<and> encoding (file_body ''cHJpbnQoMSk='') = Some ''base64''
    \<and> content (file_body ''cHJpbnQoMSk='') = Some ''cHJpbnQoMSk=''
    \<and> ''cHJpbnQoMSk='' \<noteq> [])
   \<and> fst (fetchFile demo (requestHeaders demo) ''acme'' ''widgets'' ''dev''
             \<lparr>item_path = ''e.py'', item_type = ''blob'', item_size = None\<rparr>)
       = Some \<lparr>rec_path = ''e.py'', rec_content = ''print(1)'', rec_size = 8,
                rec_language = ''Python''\<rparr>
   \<and> rec_content \<lparr>rec_path = ''e.py'', rec_content = ''print(1)'', rec_size = 8,
                    rec_language = ''Python''\<rparr>
       = base64_to_utf8 demo ''cHJpbnQoMSk=''
   \<and> (fetch demo
      (contentApiUrl ''acme'' ''widgets'' ''dev''
         \<lparr>item_path = ''bin.py'', item_type = ''blob'', item_size = Some 3\<rparr>)
      (requestHeaders demo)
     = Inr (respond_ok (file_body ''AAEC''))
    \<and> ok (respond_ok (file_body ''AAEC''))
    \<and> json (respond_ok (file_body ''AAEC'')) = Inr (file_body ''AAEC'')
    \<and> encoding (file_body ''AAEC'') = Some ''base64''
    \<and> content (file_body ''AAEC'') = Some ''AAEC''
    \<and> ''AAEC'' \<noteq> [])
   \<and> (\<exists>r. fst (fetchFile demo (requestHeaders demo) ''acme'' ''widgets'' ''dev''
                  \<lparr>item_path = ''bin.py'', item_type = ''blob'', item_size = Some 3\<rparr>) = Some r)
       = (CHR 0x00 \<notin> set (base64_to_utf8 demo ''AAEC''))
   \<and> CHR 0x00 \<in> set (base64_to_utf8 demo ''AAEC'')"
proof -
  let ?e = "\<lparr>item_path = ''e.py'', item_type = ''blob'', item_size = None\<rparr>"
  let ?b = "\<lparr>item_path = ''bin.py'', item_type = ''blob'', item_size = Some 3\<rparr>"
  let ?r = "\<lparr>rec_path = ''e.py'', rec_content = ''print(1)'', rec_size = 8,
             rec_language = ''Python''\<rparr>"
  have h1: "fetch demo (contentApiUrl ''acme'' ''widgets'' ''dev'' ?e) (requestHeaders demo)
     = Inr (respond_ok (file_body ''cHJpbnQoMSk=''))
    \<and> ok (respond_ok (file_body ''cHJpbnQoMSk=''))
    \<and> json (respond_ok (file_body ''cHJpbnQoMSk='')) = Inr (file_body ''cHJpbnQoMSk='')
    \<and> encoding (file_body ''cHJpbnQoMSk='') = Some ''base64''
    \<and> content (file_body ''cHJpbnQoMSk='') = Some ''cHJpbnQoMSk=''
    \<and> ''cHJpbnQoMSk='' \<noteq> []"
    by code_simp
  have h2: "fetch demo (contentApiUrl ''acme'' ''widgets'' ''dev'' ?b) (requestHeaders demo)
     = Inr (respond_ok (file_body ''AAEC''))
    \<and> ok (respond_ok (file_body ''AAEC''))
    \<and> json (respond_ok (file_body ''AAEC'')) = Inr (file_body ''AAEC'')
    \<and> encoding (file_body ''AAEC'') = Some ''base64''
    \<and> content (file_body ''AAEC'') = Some ''AAEC''
    \<and> ''AAEC'' \<noteq> []"
    by code_simp
  have e: "fst (fetchFile demo (requestHeaders demo) ''acme'' ''widgets'' ''dev'' ?e) = Some ?r"
    by code_simp
  have n: "CHR 0x00 \<in> set (base64_to_utf8 demo ''AAEC'')"
    by code_simp
  note t1 = normalizer_round_trip [THEN conjunct1, THEN mp, OF h1, THEN conjunct2, THEN spec,
      THEN mp, OF e, THEN conjunct1]
  note t2 = normalizer_round_trip [THEN conjunct1, THEN mp, OF h2, THEN conjunct1]
  show ?thesis
    by (rule conjI [OF h1 conjI [OF e conjI [OF t1 conjI [OF h2 conjI [OF t2 n]]]]])
qed


section \<open>Entries without a size\<close>

lemma size_or_0_fill: "size_or_0 (f\<lparr>item_size := Some (size_or_0 f)\<rparr>) = size_or_0 f"
  by (simp add: size_or_0_def)

lemma insort_fill:
  "insort_key size_or_0 (x\<lparr>item_size := Some (size_or_0 x)\<rparr>)
     (map (\<lambda>f. f\<lparr>item_size := Some (size_or_0 f)\<rparr>) xs)
   = map (\<lambda>f. f\<lparr>item_size := Some (size_or_0 f)\<rparr>) (insort_key size_or_0 x xs)"
  by (induction xs) (simp_all add: size_or_0_fill)

lemma sortBySize_fill:
  "sortBySize (map (\<lambda>f. f\<lparr>item_size := Some (size_or_0 f)\<rparr>) xs)
   = map (\<lambda>f. f\<lparr>item_size := Some (size_or_0 f)\<rparr>) (sortBySize xs)"
  unfolding sortBySize_def by (induction xs) (simp_all add: insort_fill)

lemma collectFiles_fill:
  "collectFiles L (map (\<lambda>f. f\<lparr>item_size := Some (size_or_0 f)\<rparr>) fs)
     (map (\<lambda>f. f\<lparr>item_size := Some (size_or_0 f)\<rparr>) acc) tot
   = map (\<lambda>f. f\<lparr>item_size := Some (size_or_0 f)\<rparr>) (collectFiles L fs acc tot)"
proof (induction fs arbitrary: acc tot)
  case Nil
  show ?case by simp
next
  case (Cons fl rest)
  show ?case
    using Cons.IH [of acc tot] Cons.IH [of "acc @ [fl]" "tot + size_or_0 fl"]
    by (simp add: size_or_0_fill)
qed

lemma zero_sorts_first:
  assumes "i < length (sortBySize fs)" "j < length (sortBySize fs)"
    "size_or_0 (sortBySize fs ! i) = 0" "0 < size_or_0 (sortBySize fs ! j)"
  shows "i < j"
proof (rule ccontr)
  assume "\<not> i < j"
  then have "j \<le> i" by simp
  have "sorted (map size_or_0 (sortBySize fs))" by (simp add: sortBySize_def)
  then have "map size_or_0 (sortBySize fs) ! j \<le> map size_or_0 (sortBySize fs) ! i"
    using \<open>j \<le> i\<close> assms(1) by (intro sorted_nth_mono) simp_all
  then show False using assms by simp
qed

text \<open>
  C10. A tree entry whose size is absent or zero counts as size 0 in the selection: the
  selection of a listing is the selection of the listing in which every absent size is
  written as 0, such an entry comes before every entry of positive size in the sorted
  sequence, and in the walk it is tested against the per-file limit as 0 and leaves the
  running total unchanged. The size of a file record is the length of the decoded content
  when the size of the tree entry is absent or zero, and the size of the tree entry
  otherwise.
\<close>

theorem absent_size_counts_as_zero:
  "(item_size f = None \<or> item_size f = Some 0 \<longrightarrow> size_or_0 f = 0)
   \<and> selectFiles L (map (\<lambda>f. f\<lparr>item_size := Some (size_or_0 f)\<rparr>) fs)
       = map (\<lambda>f. f\<lparr>item_size := Some (size_or_0 f)\<rparr>) (selectFiles L fs)
   \<and> (i < length (sortBySize fs) \<and> j < length (sortBySize fs)
      \<and> (item_size (sortBySize fs ! i) = None \<or> item_size (sortBySize fs ! i) = Some 0)
      \<and> 0 < size_or_0 (sortBySize fs ! j)
      \<longrightarrow> i < j)
   \<and> (item_size f = None \<or> item_size f = Some 0
      \<longrightarrow> collectFiles L (f # rest) acc tot
          = (if maxFiles L \<le> length acc then acc
             else if maxFileSize L < 0 then collectFiles L rest acc tot
             else if maxTotalSize L < tot then acc
             else collectFiles L rest (acc @ [f]) tot))
   \<and> (fst (fetchFile P headers ow rp tb f) = Some r
      \<longrightarrow> (item_size f = None \<or> item_size f = Some 0
             \<longrightarrow> rec_size r = int (length (rec_content r)))
          \<and> (\<forall>n. item_size f = Some n \<and> n \<noteq> 0 \<longrightarrow> rec_size r = n))"
proof -
  have z: "item_size f = None \<or> item_size f = Some 0 \<longrightarrow> size_or_0 f = 0" for f
    by (auto simp: size_or_0_def)
  have a: "selectFiles L (map (\<lambda>f. f\<lparr>item_size := Some (size_or_0 f)\<rparr>) fs)
       = map (\<lambda>f. f\<lparr>item_size := Some (size_or_0 f)\<rparr>) (selectFiles L fs)"
    using collectFiles_fill [of L "sortBySize fs" "[]" 0]
    by (simp add: selectFiles_def sortBySize_fill)
  have b: "i < length (sortBySize fs) \<and> j < length (sortBySize fs)
      \<and> (item_size (sortBySize fs ! i) = None \<or> item_size (sortBySize fs ! i) = Some 0)
      \<and> 0 < size_or_0 (sortBySize fs ! j)
      \<longrightarrow> i < j"
    using zero_sorts_first [of i fs j] z [of "sortBySize fs ! i"] by blast
  have c: "item_size f = None \<or> item_size f = Some 0
      \<longrightarrow> collectFiles L (f # rest) acc tot
          = (if maxFiles L \<le> length acc then acc
             else if maxFileSize L < 0 then collectFiles L rest acc tot
             else if maxTotalSize L < tot then acc
             else collectFiles L rest (acc @ [f]) tot)"
    using z [of f] by auto
  have d: "fst (fetchFile P headers ow rp tb f) = Some r
      \<longrightarrow> (item_size f = None \<or> item_size f = Some 0
             \<longrightarrow> rec_size r = int (length (rec_content r)))
          \<and> (\<forall>n. item_size f = Some n \<and> n \<noteq> 0 \<longrightarrow> rec_size r = n)"
    by (auto simp: fetchFile_Some)
  show ?thesis
    by (rule conjI [OF z conjI [OF a conjI [OF b conjI [OF c d]]]])
qed

theorem absent_size_counts_as_zero_witness:
  "(item_size \<lparr>item_path = ''e.py'', item_type = ''blob'', item_size = None\<rparr> = None
    \<or> item_size \<lparr>item_path = ''e.py'', item_type = ''blob'', item_size = None\<rparr> = Some 0)
   \<and> size_or_0 \<lparr>item_path = ''e.py'', item_type = ''blob'', item_size = None\<rparr> = 0
   \<and> sortBySize dev_tree
       = [\<lparr>item_path = ''e.py'', item_type = ''blob'', item_size = None\<rparr>,
          \<lparr>item_path = ''empty.py'', item_type = ''blob'', item_size = Some 0\<rparr>,
          \<lparr>item_path = ''bin.py'', item_type = ''blob'', item_size = Some 3\<rparr>]
   \<and> fst (fetchFile demo (requestHeaders demo) ''acme'' ''widgets'' ''dev''
             \<lparr>item_path = ''e.py'', item_type = ''blob'', item_size = None\<rparr>)
       = Some \<lparr>rec_path = ''e.py'', rec_content = ''print(1)'', rec_size = 8,
                rec_language = ''Python''\<rparr>
   \<and> rec_size \<lparr>rec_path = ''e.py'', rec_content = ''print(1)'', rec_size = 8,
                 rec_language = ''Python''\<rparr>
       = int (length (rec_content \<lparr>rec_path = ''e.py'', rec_content = ''print(1)'', rec_size = 8,
                                     rec_language = ''Python''\<rparr>))"
proof -
  let ?e = "\<lparr>item_path = ''e.py'', item_type = ''blob'', item_size = None\<rparr>"
  let ?r = "\<lparr>rec_path = ''e.py'', rec_content = ''print(1)'', rec_size = 8,
             rec_language = ''Python''\<rparr>"
  have h: "item_size ?e = None \<or> item_size ?e = Some 0"
    by simp
  have s: "sortBySize dev_tree
       = [?e,
          \<lparr>item_path = ''empty.py'', item_type = ''blob'', item_size = Some 0\<rparr>,
          \<lparr>item_path = ''bin.py'', item_type = ''blob'', item_size = Some 3\<rparr>]"
    by code_simp
  have g: "fst (fetchFile demo (requestHeaders demo) ''acme'' ''widgets'' ''dev'' ?e) = Some ?r"
    by code_simp
  note z = absent_size_counts_as_zero [THEN conjunct1, THEN mp, OF h]
  note d = absent_size_counts_as_zero
    [THEN conjunct2, THEN conjunct2, THEN conjunct2, THEN conjunct2, THEN mp, OF g,
     THEN conjunct1, THEN mp, OF h]
  show ?thesis
    by (rule conjI [OF h conjI [OF z conjI [OF s conjI [OF g d]]]])
qed


end
